theory Spec2Isabelle
  imports Complex_Main "HOL-Library.Multiset"
begin

section \<open>JavaScript values\<close>

text \<open>
  The service is TypeScript. A JavaScript number is modelled by a real: the arithmetic of
  the source is taken exactly, and binary rounding of doubles is left out. Where the source
  divides by a number that can be zero, the model writes out what JavaScript yields
  (an infinity or NaN) instead of HOL's \<open>x / 0 = 0\<close>.
\<close>

datatype jsnum = Fin real | PosInf | NegInf | NaN

definition jsdiv :: "real \<Rightarrow> real \<Rightarrow> jsnum" where
  "jsdiv a b =
     (if b \<noteq> 0 then Fin (a / b)
      else if 0 < a then PosInf else if a < 0 then NegInf else NaN)"

text \<open>Truthiness of an optional string: \<open>undefined\<close> and the empty string are falsy.\<close>

definition truthy :: "string option \<Rightarrow> bool" where
  "truthy v = (case v of None \<Rightarrow> False | Some s \<Rightarrow> s \<noteq> [])"

text \<open>\<open>toLowerCase\<close> on the ASCII letters, which is all an address holds.\<close>

definition lowerChar :: "char \<Rightarrow> char" where
  "lowerChar c =
     (case map_of (zip ''ABCDEFGHIJKLMNOPQRSTUVWXYZ'' ''abcdefghijklmnopqrstuvwxyz'') c of
        Some l \<Rightarrow> l
      | None \<Rightarrow> c)"

definition toLowerCase :: "string \<Rightarrow> string" where
  "toLowerCase s = map lowerChar s"

definition startsWith :: "string \<Rightarrow> string \<Rightarrow> bool" where
  "startsWith s p = (take (length p) s = p)"

text \<open>
  A JavaScript \<open>Set\<close> iterates in insertion order and holds no duplicates: it is a
  list, \<open>add\<close> appends an element that is not there, \<open>delete\<close> removes it.
\<close>

definition setHas :: "'a \<Rightarrow> 'a list \<Rightarrow> bool" where
  "setHas x s = (x \<in> set s)"

definition setAdd :: "'a \<Rightarrow> 'a list \<Rightarrow> 'a list" where
  "setAdd x s = (if x \<in> set s then s else s @ [x])"

definition setDelete :: "'a \<Rightarrow> 'a list \<Rightarrow> 'a list" where
  "setDelete x s = removeAll x s"

section \<open>Data model\<close>

datatype Side = BUY | SELL

datatype OrderSide = OrderBUY | OrderSELL

datatype DetectionSource = Polling | Mempool

record Activity =
  proxyWallet :: "string option"
  a_name :: "string option"
  a_conditionId :: "string option"
  slug :: "string option"
  a_side :: Side
  a_size :: real
  a_price :: real
  asset :: "string option"
  a_outcome :: "string option"
  transactionHash :: string
  a_timestamp :: int

record 'n SmartMoneyTrade =
  traderAddress :: string
  traderName :: "string option"
  conditionId :: "string option"
  marketSlug :: "string option"
  side :: Side
  tradeSize :: real
  price :: 'n
  tokenId :: "string option"
  outcome :: "string option"
  txHash :: "string option"
  timestamp :: int
  isSmartMoney :: bool
  detectedAt :: "int option"
  detectionSource :: "DetectionSource option"

record Order =
  maker :: string
  signer :: string
  o_tokenId :: string
  o_side :: OrderSide
  makerAmount :: nat
  takerAmount :: nat

record DecodedSettlement =
  takerOrder :: Order
  makerOrders :: "Order list"

text \<open>
  The calldata decoder module is imported by the service and is not part of it: its two
  constants and two functions are parameters of the model.
\<close>

record CalldataDecoder =
  ROUTER_ADDRESSES :: "string list"
  MATCH_ORDERS_SELECTOR :: string
  decodeMatchOrdersCalldata :: "string \<Rightarrow> DecodedSettlement option"
  extractTraderAddresses :: "DecodedSettlement \<Rightarrow> string list"

record PendingTx =
  tx_to :: "string option"
  tx_input :: "string option"
  tx_hash :: "string option"

text \<open>
  A feed message after \<open>JSON.parse\<close>: \<open>msg.id\<close>, the truthiness of \<open>msg.result\<close>,
  and \<open>msg.params.result\<close> when it is there. \<open>None\<close> as a message is a payload
  that does not parse.
\<close>

record MempoolMsg =
  msg_id :: "int option"
  msg_result :: bool
  params_result :: "PendingTx option"

text \<open>
  The fields of \<open>SmartMoneyService\<close> the detectors use. Timers, sockets and handlers
  are named by numbers; the handler set iterates in registration order.
\<close>

record Service =
  pollIntervalId :: "nat option"
  lastCheckTimestamp :: int
  seenTxHashes :: "string list"
  tradeHandlers :: "nat list"
  targetWallets :: "string list"
  pollInterval :: nat
  mempoolWs :: "nat option"
  mempoolTargetAddresses :: "string list"
  smartMoneySet :: "string list"

datatype Effect = ClearInterval nat | CloseSocket nat

type_synonym HandlerCall = "nat \<times> jsnum SmartMoneyTrade"

section \<open>Dedup window\<close>

text \<open>
  Both detectors mark a hash with the same lines: \<open>add\<close>, then, beyond 1000 entries,
  the first 500 of the iteration order are deleted one by one.
\<close>

definition pruneSeen :: "string list \<Rightarrow> string list" where
  "pruneSeen seen =
     (if length seen > 1000 then fold setDelete (take 500 seen) seen else seen)"

definition markSeen :: "string \<Rightarrow> string list \<Rightarrow> string list" where
  "markSeen h seen = pruneSeen (setAdd h seen)"

section \<open>Polling detector\<close>

datatype 'a Response = Failed | Fetched 'a

definition fetchOne :: "(string \<Rightarrow> int \<Rightarrow> Activity list Response) \<Rightarrow> int \<Rightarrow> string \<Rightarrow> Activity list" where
  "fetchOne getActivity start wallet =
     (case getActivity wallet start of Failed \<Rightarrow> [] | Fetched as \<Rightarrow> as)"

definition OVERLAP_SECONDS :: int where
  "OVERLAP_SECONDS = 10"

text \<open>
  \<open>pollTargetWallets\<close>: the state after the tick, the requests issued (wallet and
  start time) and the activities returned. \<open>now\<close> is the clock in seconds.
\<close>

definition pollTargetWallets ::
  "(string \<Rightarrow> int \<Rightarrow> Activity list Response) \<Rightarrow> int \<Rightarrow> Service
     \<Rightarrow> Service \<times> (string \<times> int) list \<times> Activity list" where
  "pollTargetWallets getActivity now s =
     (if length (targetWallets s) = 0 then (s, [], [])
      else
        let start = lastCheckTimestamp s;
            results = map (fetchOne getActivity start) (targetWallets s);
            s' = s\<lparr>lastCheckTimestamp := max start (now - OVERLAP_SECONDS)\<rparr>
        in (s', map (\<lambda>w. (w, start)) (targetWallets s),
            sort_key (\<lambda>a. - a_timestamp a) (concat results)))"

definition activityToSmartMoneyTrade :: "Service \<Rightarrow> Activity \<Rightarrow> jsnum SmartMoneyTrade option" where
  "activityToSmartMoneyTrade s a =
     (let addr = map_option toLowerCase (proxyWallet a) in
      if \<not> truthy addr then None
      else Some \<lparr>traderAddress = the addr, traderName = a_name a,
                 conditionId = a_conditionId a, marketSlug = slug a, side = a_side a,
                 tradeSize = a_size a, price = Fin (a_price a), tokenId = asset a,
                 outcome = a_outcome a, txHash = Some (transactionHash a),
                 timestamp = a_timestamp a,
                 isSmartMoney = setHas (the addr) (smartMoneySet s),
                 detectedAt = None, detectionSource = None\<rparr>)"

definition notify :: "Service \<Rightarrow> jsnum SmartMoneyTrade \<Rightarrow> HandlerCall list" where
  "notify s trade = map (\<lambda>h. (h, trade)) (tradeHandlers s)"

text \<open>
  The body of the interval callback of \<open>startPolling\<close>, over the activities of one
  tick; \<open>nowMs\<close> is the clock in milliseconds.
\<close>

fun pollLoop :: "int \<Rightarrow> Service \<Rightarrow> Activity list \<Rightarrow> Service \<times> HandlerCall list" where
  "pollLoop nowMs s [] = (s, [])"
| "pollLoop nowMs s (a # as) =
     (if setHas (transactionHash a) (seenTxHashes s) then pollLoop nowMs s as
      else
        let s' = s\<lparr>seenTxHashes := markSeen (transactionHash a) (seenTxHashes s)\<rparr>
        in case activityToSmartMoneyTrade s' a of
             None \<Rightarrow> pollLoop nowMs s' as
           | Some trade \<Rightarrow>
               let trade' = trade\<lparr>detectedAt := Some nowMs, detectionSource := Some Polling\<rparr>;
                   r = pollLoop nowMs s' as
               in (fst r, notify s' trade' @ snd r))"

definition pollTick ::
  "(string \<Rightarrow> int \<Rightarrow> Activity list Response) \<Rightarrow> int \<Rightarrow> int \<Rightarrow> Service
     \<Rightarrow> Service \<times> HandlerCall list" where
  "pollTick getActivity now nowMs s =
     (case pollTargetWallets getActivity now s of (s', reqs, as) \<Rightarrow> pollLoop nowMs s' as)"

definition stopPolling :: "Service \<Rightarrow> Service \<times> Effect list" where
  "stopPolling s =
     (case pollIntervalId s of
        None \<Rightarrow> (s, [])
      | Some t \<Rightarrow> (s\<lparr>pollIntervalId := None\<rparr>, [ClearInterval t]))"

section \<open>Pending-transaction detector\<close>

definition findTargetOrder :: "DecodedSettlement \<Rightarrow> string \<Rightarrow> Order" where
  "findTargetOrder decoded targetTrader =
     (if maker (takerOrder decoded) \<noteq> targetTrader \<and> signer (takerOrder decoded) \<noteq> targetTrader
      then (case find (\<lambda>mo. maker mo = targetTrader \<or> signer mo = targetTrader) (makerOrders decoded) of
              Some makerOrder \<Rightarrow> makerOrder
            | None \<Rightarrow> takerOrder decoded)
      else takerOrder decoded)"

definition orderPrice :: "Order \<Rightarrow> jsnum" where
  "orderPrice targetOrder =
     (let makerAmt = real (makerAmount targetOrder) / 1000000;
          takerAmt = real (takerAmount targetOrder) / 1000000
      in if o_side targetOrder = OrderBUY then jsdiv makerAmt takerAmt
         else jsdiv takerAmt makerAmt)"

definition orderSize :: "Order \<Rightarrow> real" where
  "orderSize targetOrder =
     (let makerAmt = real (makerAmount targetOrder) / 1000000;
          takerAmt = real (takerAmount targetOrder) / 1000000
      in if o_side targetOrder = OrderBUY then takerAmt else makerAmt)"

definition mempoolTrade :: "Service \<Rightarrow> int \<Rightarrow> string \<Rightarrow> Order \<Rightarrow> string option \<Rightarrow> jsnum SmartMoneyTrade" where
  "mempoolTrade s nowMs targetTrader targetOrder h =
     \<lparr>traderAddress = targetTrader, traderName = None, conditionId = None, marketSlug = None,
      side = (if o_side targetOrder = OrderBUY then BUY else SELL),
      tradeSize = orderSize targetOrder, price = orderPrice targetOrder,
      tokenId = Some (o_tokenId targetOrder), outcome = None, txHash = h,
      timestamp = nowMs, isSmartMoney = setHas targetTrader (smartMoneySet s),
      detectedAt = Some nowMs, detectionSource = Some Mempool\<rparr>"

text \<open>
  \<open>handleMempoolMessage\<close> up to the match against the tracked addresses: the pending
  transaction, its decoded settlement and the first tracked trader, or \<open>None\<close> when
  the message is dropped by one of the early \<open>return\<close>s or by the silent \<open>catch\<close>.
\<close>

definition mempoolCandidate ::
  "CalldataDecoder \<Rightarrow> Service \<Rightarrow> MempoolMsg option
     \<Rightarrow> (PendingTx \<times> DecodedSettlement \<times> string) option" where
  "mempoolCandidate dec s data =
     (case data of
        None \<Rightarrow> None
      | Some msg \<Rightarrow>
          if msg_id msg = Some 1 \<and> msg_result msg then None
          else case params_result msg of
            None \<Rightarrow> None
          | Some tx \<Rightarrow>
              if \<not> truthy (tx_to tx)
                 \<or> \<not> setHas (toLowerCase (the (tx_to tx))) (ROUTER_ADDRESSES dec) then None
              else if \<not> truthy (tx_input tx)
                 \<or> \<not> startsWith (the (tx_input tx)) (MATCH_ORDERS_SELECTOR dec) then None
              else case decodeMatchOrdersCalldata dec (the (tx_input tx)) of
                None \<Rightarrow> None
              | Some decoded \<Rightarrow>
                  let traders = extractTraderAddresses dec decoded;
                      targetTrader = find (\<lambda>addr. setHas addr (mempoolTargetAddresses s)) traders
                  in if \<not> truthy targetTrader then None
                     else Some (tx, decoded, the targetTrader))"

text \<open>
  The rest of \<open>handleMempoolMessage\<close>: the dedup by hash, the target's order, and the
  call of every handler. A dropped message leaves the service as it was.
\<close>

definition handleMempoolMessage ::
  "CalldataDecoder \<Rightarrow> int \<Rightarrow> Service \<Rightarrow> MempoolMsg option \<Rightarrow> Service \<times> HandlerCall list" where
  "handleMempoolMessage dec nowMs s data =
     (case mempoolCandidate dec s data of
        None \<Rightarrow> (s, [])
      | Some (tx, decoded, targetTrader) \<Rightarrow>
          if truthy (tx_hash tx) \<and> setHas (the (tx_hash tx)) (seenTxHashes s) then (s, [])
          else
            let s' = (if truthy (tx_hash tx)
                      then s\<lparr>seenTxHashes := markSeen (the (tx_hash tx)) (seenTxHashes s)\<rparr>
                      else s);
                targetOrder = findTargetOrder decoded targetTrader
            in (s', notify s' (mempoolTrade s' nowMs targetTrader targetOrder (tx_hash tx))))"

definition stopMempoolMonitor :: "Service \<Rightarrow> Service \<times> Effect list" where
  "stopMempoolMonitor s =
     (case mempoolWs s of
        None \<Rightarrow> (s, [])
      | Some ws \<Rightarrow> (s\<lparr>mempoolWs := None\<rparr>, [CloseSocket ws]))"

section \<open>Subscriptions\<close>

text \<open>The closure \<open>unsubscribe\<close> returned by \<open>subscribeSmartMoneyTrades\<close> for handler \<open>h\<close>.\<close>

definition unsubscribe :: "nat \<Rightarrow> Service \<Rightarrow> Service \<times> Effect list" where
  "unsubscribe h s =
     (let s1 = s\<lparr>tradeHandlers := setDelete h (tradeHandlers s)\<rparr> in
      if length (tradeHandlers s1) = 0 then
        (case stopPolling s1 of (s2, e2) \<Rightarrow>
         case stopMempoolMonitor s2 of (s3, e3) \<Rightarrow>
           (s3\<lparr>targetWallets := [], mempoolTargetAddresses := [], seenTxHashes := []\<rparr>, e2 @ e3))
      else (s1, []))"

section \<open>Copy-trade executor\<close>

text \<open>
  What a call into the surroundings of the service does on the event at hand: it returns a
  value or throws. An exception is a thrown message, or one of the two configuration errors
  of the split planner.
\<close>

datatype Exn = Thrown string | SplitCountExceeds int | SplitSizeBelowMinimum jsnum int

datatype 'a Call = Returns 'a | Throws Exn

datatype OrderMode = Market | Limit

datatype OrderType = FOK | FAK | GTC | GTD

text \<open>\<open>errorMsg\<close> holds the exception whose message the source stores.\<close>

record OrderResult =
  success :: bool
  orderId :: "string option"
  errorMsg :: "Exn option"

record SplitOrder =
  so_tokenId :: string
  so_side :: Side
  so_price :: real
  so_size :: jsnum
  so_orderType :: OrderType

record Stats =
  tradesDetected :: nat
  tradesExecuted :: nat
  tradesSkipped :: nat
  tradesFailed :: nat
  totalUsdcSpent :: real
  filteredByPrice :: nat

text \<open>
  The options of a session after the defaults are filled in. A callback is \<open>None\<close>
  when the caller gave none, and otherwise what it does on this event. The order manager
  is what \<open>placeOrder\<close> does (it returns the order id of the handle), and
  \<open>handleRegistration\<close> what registering the fill and reject callbacks on the handle
  does; the callbacks themselves run later, outside the handler.
\<close>

record Options =
  targetAddresses :: "string list"
  sizeScale :: real
  maxSizePerTrade :: real
  maxSlippage :: real
  orderType :: OrderType
  minTradeSize :: real
  sideFilter :: "Side option"
  delay :: real
  dryRun :: bool
  orderMode :: OrderMode
  limitPriceOffset :: real
  splitCount :: int
  splitSpread :: real
  retryCount :: int
  retryDelay :: real
  priceRange :: "(real \<times> real) option"
  sellFullPosition :: bool
  tradeFilter :: "bool Call option"
  preOrderCheck :: "bool Call option"
  orderManager :: "string Call option"
  handleRegistration :: "unit Call"
  onOrderPlaced :: "unit Call option"
  onTrade :: "unit Call option"
  onError :: "unit Call option"

text \<open>
  The trading service: balances are the parsed balance strings, in units of \<open>10\<^sup>-\<^sup>6\<close>;
  the three order calls may answer differently at each attempt.
\<close>

record TradingService =
  getBalanceConditional :: "real Call"
  getBalanceCollateral :: "real Call"
  createBatchOrders :: "nat \<Rightarrow> OrderResult Call"
  createLimitOrder :: "nat \<Rightarrow> OrderResult Call"
  createMarketOrder :: "nat \<Rightarrow> OrderResult Call"

datatype Action =
    QueryBalance string
  | Sleep real
  | CallTradeFilter
  | CallPreOrderCheck
  | PlaceOrder string Side real real OrderType
  | CallOnOrderPlaced
  | CreateBatchOrders "SplitOrder list"
  | CreateLimitOrder string Side real real OrderType
  | CreateMarketOrder string Side real real OrderType
  | CallOnTrade OrderResult
  | CallOnError Exn

subsection \<open>Prices\<close>

definition roundToTick :: "real \<Rightarrow> real" where
  "roundToTick p = real_of_int \<lfloor>p * 100 + 1 / 2\<rfloor> / 100"

definition clamp :: "real \<Rightarrow> real \<Rightarrow> real \<Rightarrow> real" where
  "clamp v lo hi = max lo (min hi v)"

definition calculateLimitPrice :: "Side \<Rightarrow> real \<Rightarrow> real \<Rightarrow> real" where
  "calculateLimitPrice sd detectedPrice offset =
     (let raw = (if sd = BUY then detectedPrice + offset else detectedPrice - offset)
      in roundToTick (clamp raw 0.01 0.99))"

definition slippagePrice :: "Options \<Rightarrow> real SmartMoneyTrade \<Rightarrow> real" where
  "slippagePrice opts trade =
     (if side trade = BUY then price trade * (1 + maxSlippage opts)
      else price trade * (1 - maxSlippage opts))"

subsection \<open>Split-order planner\<close>

definition MIN_SHARES :: real where
  "MIN_SHARES = 5"

function reduceSplitCount :: "real \<Rightarrow> int \<Rightarrow> int" where
  "reduceSplitCount totalSize effectiveSplitCount =
     (if effectiveSplitCount > 1
         \<and> real_of_int \<lfloor>totalSize / real_of_int effectiveSplitCount\<rfloor> < MIN_SHARES
      then reduceSplitCount totalSize (effectiveSplitCount - 1)
      else effectiveSplitCount)"
  by pat_completeness auto
termination
  by (relation "measure (\<lambda>(t, n). nat n)") auto

text \<open>\<open>Math.floor(a / n)\<close>: an infinity and NaN pass through \<open>Math.floor\<close>.\<close>

definition floorDiv :: "real \<Rightarrow> int \<Rightarrow> jsnum" where
  "floorDiv a n =
     (case jsdiv a (real_of_int n) of Fin q \<Rightarrow> Fin (real_of_int \<lfloor>q\<rfloor>) | v \<Rightarrow> v)"

text \<open>\<open>a < b\<close> for a finite \<open>b\<close>: NaN compares false.\<close>

definition jsLess :: "jsnum \<Rightarrow> real \<Rightarrow> bool" where
  "jsLess a b = (case a of Fin x \<Rightarrow> x < b | NegInf \<Rightarrow> True | PosInf \<Rightarrow> False | NaN \<Rightarrow> False)"

definition splitOrder ::
  "string \<Rightarrow> Side \<Rightarrow> real \<Rightarrow> real \<Rightarrow> jsnum \<Rightarrow> OrderType \<Rightarrow> nat \<Rightarrow> SplitOrder" where
  "splitOrder tok sd baseLimitPrice spread sizePerOrder ot i =
     (let priceOffset = (if sd = BUY then real i * spread else - real i * spread)
      in \<lparr>so_tokenId = tok, so_side = sd,
          so_price = roundToTick (clamp (baseLimitPrice + priceOffset) 0.01 0.99),
          so_size = sizePerOrder, so_orderType = ot\<rparr>)"

definition createSplitOrders ::
  "string \<Rightarrow> Side \<Rightarrow> real \<Rightarrow> real \<Rightarrow> int \<Rightarrow> real \<Rightarrow> real \<Rightarrow> OrderType
     \<Rightarrow> Exn + SplitOrder list" where
  "createSplitOrders tok sd basePrice totalSize requested spread offset ot =
     (if requested > 15 then Inl (SplitCountExceeds requested)
      else
        let effectiveSplitCount = reduceSplitCount totalSize requested;
            sizePerOrder = floorDiv totalSize effectiveSplitCount
        in if jsLess sizePerOrder MIN_SHARES
           then Inl (SplitSizeBelowMinimum sizePerOrder effectiveSplitCount)
           else
             let baseLimitPrice = calculateLimitPrice sd basePrice offset
             in Inr (map (splitOrder tok sd baseLimitPrice spread sizePerOrder ot)
                       [0 ..< nat effectiveSplitCount]))"

subsection \<open>The per-event handler of a session\<close>

definition MIN_ORDER_SIZE :: real where
  "MIN_ORDER_SIZE = 1"

text \<open>
  The size computation: \<open>None\<close> is the skip below the minimum order value, otherwise
  the copy size and the copy value. The division of the cap by the price is JavaScript's;
  a size that is not finite is never passed on (lemma \<open>sizeCopy_finite\<close> below), so the
  last branch is never taken.
\<close>

definition sizeCopy :: "Options \<Rightarrow> real SmartMoneyTrade \<Rightarrow> (real \<times> real) option" where
  "sizeCopy opts trade =
     (let copySize0 = max MIN_SHARES (tradeSize trade * sizeScale opts);
          copyValue0 = copySize0 * price trade;
          capped = (copyValue0 > maxSizePerTrade opts);
          copySize = (if capped then jsdiv (maxSizePerTrade opts) (price trade) else Fin copySize0);
          copyValue = (if capped then maxSizePerTrade opts else copyValue0)
      in if copyValue < MIN_ORDER_SIZE then None
         else case copySize of Fin c \<Rightarrow> Some (c, copyValue) | _ \<Rightarrow> None)"

text \<open>The filters before the size computation: \<open>True\<close> when the trade passes them all.\<close>

type_synonym ExecState = "Stats \<times> Action list"

definition skipTrade :: "ExecState \<Rightarrow> ExecState \<times> Exn option" where
  "skipTrade st = ((fst st\<lparr>tradesSkipped := tradesSkipped (fst st) + 1\<rparr>, snd st), None)"

definition logAction :: "Action list \<Rightarrow> ExecState \<Rightarrow> ExecState" where
  "logAction acts st = (fst st, snd st @ acts)"

definition limitOrderType :: "Options \<Rightarrow> OrderType" where
  "limitOrderType opts = (if orderType opts = GTD then GTD else GTC)"

definition marketOrderType :: "Options \<Rightarrow> OrderType" where
  "marketOrderType opts = (if orderType opts = FAK then FAK else FOK)"

definition failedResult :: "Exn \<Rightarrow> OrderResult" where
  "failedResult e = \<lparr>success = False, orderId = None, errorMsg = Some e\<rparr>"

text \<open>
  One pass through the body of the retry loop: the calls made, and either the exception
  that leaves the loop or the order result with the flag of the \<open>break\<close> of the order
  manager path.
\<close>

definition attemptOrder ::
  "Options \<Rightarrow> TradingService \<Rightarrow> real SmartMoneyTrade \<Rightarrow> string \<Rightarrow> real \<Rightarrow> real \<Rightarrow> nat
     \<Rightarrow> Action list \<times> (Exn + OrderResult \<times> bool)" where
  "attemptOrder opts ts trade tok copySize usdcAmount attempt =
     (if orderMode opts = Limit then
        let limitPrice = calculateLimitPrice (side trade) (price trade) (limitPriceOffset opts)
        in if orderManager opts \<noteq> None \<and> splitCount opts = 1 then
             let place = PlaceOrder tok (side trade) limitPrice copySize (limitOrderType opts)
             in case the (orderManager opts) of
                  Throws e \<Rightarrow> ([place], Inl e)
                | Returns oid \<Rightarrow>
                    (case onOrderPlaced opts of
                       Some (Throws e) \<Rightarrow> ([place, CallOnOrderPlaced], Inl e)
                     | placed \<Rightarrow>
                         let acts = (if placed = None then [place] else [place, CallOnOrderPlaced])
                         in case handleRegistration opts of
                              Throws e \<Rightarrow> (acts, Inl e)
                            | Returns u \<Rightarrow>
                                (acts, Inr (\<lparr>success = True, orderId = Some oid,
                                             errorMsg = None\<rparr>, True)))
           else if splitCount opts > 1 then
             (case createSplitOrders tok (side trade) (price trade) copySize (splitCount opts)
                     (splitSpread opts) (limitPriceOffset opts) (limitOrderType opts) of
                Inl e \<Rightarrow> ([], Inr (failedResult e, False))
              | Inr orders \<Rightarrow>
                  (case createBatchOrders ts attempt of
                     Throws e \<Rightarrow> ([CreateBatchOrders orders], Inr (failedResult e, False))
                   | Returns r \<Rightarrow> ([CreateBatchOrders orders], Inr (r, False))))
           else
             let call = CreateLimitOrder tok (side trade) limitPrice copySize (limitOrderType opts)
             in (case createLimitOrder ts attempt of
                   Throws e \<Rightarrow> ([call], Inl e)
                 | Returns r \<Rightarrow> ([call], Inr (r, False)))
      else
        let call = CreateMarketOrder tok (side trade) usdcAmount (slippagePrice opts trade)
                     (marketOrderType opts)
        in (case createMarketOrder ts attempt of
              Throws e \<Rightarrow> ([call], Inl e)
            | Returns r \<Rightarrow> ([call], Inr (r, False))))"

text \<open>
  The retry loop \<open>for (attempt = 0; attempt <= retryCount; attempt++)\<close>, from the
  attempt given: the last order result, the calls made and the exception that left the
  loop, if any.
\<close>

function executeLoop ::
  "Options \<Rightarrow> TradingService \<Rightarrow> real SmartMoneyTrade \<Rightarrow> string \<Rightarrow> real \<Rightarrow> real
     \<Rightarrow> int \<Rightarrow> OrderResult \<Rightarrow> Action list \<Rightarrow> OrderResult \<times> Action list \<times> Exn option" where
  "executeLoop opts ts trade tok copySize usdcAmount attempt result acts =
     (if attempt \<le> retryCount opts then
        (case attemptOrder opts ts trade tok copySize usdcAmount (nat attempt) of
           (new, Inl e) \<Rightarrow> (result, acts @ new, Some e)
         | (new, Inr (r, brk)) \<Rightarrow>
             if brk \<or> success r \<or> attempt \<ge> retryCount opts then (r, acts @ new, None)
             else executeLoop opts ts trade tok copySize usdcAmount (attempt + 1) r
                    (acts @ new @ [Sleep (retryDelay opts)]))
      else (result, acts, None))"
  by pat_completeness auto
termination
  by (relation "measure (\<lambda>(opts, ts, trade, tok, cs, ua, attempt, r, acts).
        nat (retryCount opts + 1 - attempt))") auto

definition notExecuted :: OrderResult where
  "notExecuted = failedResult (Thrown ''Order not executed'')"

definition dryRunResult :: OrderResult where
  "dryRunResult = \<lparr>success = True, orderId = Some ''dry_run'', errorMsg = None\<rparr>"

text \<open>The statistics update and the \<open>onTrade\<close> callback that end the \<open>try\<close> block.\<close>

definition finishTrade ::
  "Options \<Rightarrow> real \<Rightarrow> OrderResult \<Rightarrow> ExecState \<Rightarrow> ExecState \<times> Exn option" where
  "finishTrade opts usdcAmount result st =
     (let stats = fst st;
          stats' =
            (if \<not> (orderManager opts \<noteq> None \<and> orderMode opts = Limit \<and> splitCount opts = 1)
             then (if success result
                   then stats\<lparr>tradesExecuted := tradesExecuted stats + 1,
                              totalUsdcSpent := totalUsdcSpent stats + usdcAmount\<rparr>
                   else stats\<lparr>tradesFailed := tradesFailed stats + 1\<rparr>)
             else stats)
      in case onTrade opts of
           None \<Rightarrow> ((stats', snd st), None)
         | Some (Returns u) \<Rightarrow> ((stats', snd st @ [CallOnTrade result]), None)
         | Some (Throws e) \<Rightarrow> ((stats', snd st @ [CallOnTrade result]), Some e))"

definition executeTrade ::
  "Options \<Rightarrow> TradingService \<Rightarrow> real SmartMoneyTrade \<Rightarrow> string \<Rightarrow> real \<Rightarrow> real
     \<Rightarrow> ExecState \<Rightarrow> ExecState \<times> Exn option" where
  "executeTrade opts ts trade tok copySize usdcAmount st =
     (if dryRun opts then finishTrade opts usdcAmount dryRunResult st
      else case executeLoop opts ts trade tok copySize usdcAmount 0 notExecuted [] of
             (result, acts, Some e) \<Rightarrow> (logAction acts st, Some e)
           | (result, acts, None) \<Rightarrow> finishTrade opts usdcAmount result (logAction acts st))"

text \<open>
  The caller's asynchronous check, in its own \<open>try\<close>: only an answer \<open>false\<close> skips
  the trade.
\<close>

definition preOrder ::
  "Options \<Rightarrow> TradingService \<Rightarrow> real SmartMoneyTrade \<Rightarrow> string \<Rightarrow> real \<Rightarrow> real
     \<Rightarrow> ExecState \<Rightarrow> ExecState \<times> Exn option" where
  "preOrder opts ts trade tok copySize usdcAmount st =
     (case preOrderCheck opts of
        None \<Rightarrow> executeTrade opts ts trade tok copySize usdcAmount st
      | Some c \<Rightarrow>
          let st2 = logAction [CallPreOrderCheck] st
          in (case c of
                Returns False \<Rightarrow> skipTrade st2
              | _ \<Rightarrow> executeTrade opts ts trade tok copySize usdcAmount st2))"

text \<open>
  The collateral check for BUY copies, in its own \<open>try\<close>: only a balance below the
  amount skips the trade.
\<close>

definition preflight ::
  "Options \<Rightarrow> TradingService \<Rightarrow> real SmartMoneyTrade \<Rightarrow> string \<Rightarrow> real \<Rightarrow> real
     \<Rightarrow> ExecState \<Rightarrow> ExecState \<times> Exn option" where
  "preflight opts ts trade tok copySize usdcAmount st =
     (let checked = (\<not> dryRun opts \<and> side trade = BUY);
          st1 = (if checked then logAction [QueryBalance ''COLLATERAL''] st else st);
          insufficient =
            (checked \<and> (case getBalanceCollateral ts of
                          Throws e \<Rightarrow> False
                        | Returns balance \<Rightarrow> balance / 1000000 < usdcAmount))
      in if insufficient then skipTrade st1
         else preOrder opts ts trade tok copySize usdcAmount st1)"

text \<open>The delay, the token check and the full-position override for SELL copies.\<close>

definition afterSizing ::
  "Options \<Rightarrow> TradingService \<Rightarrow> real SmartMoneyTrade \<Rightarrow> real \<Rightarrow> real
     \<Rightarrow> ExecState \<Rightarrow> ExecState \<times> Exn option" where
  "afterSizing opts ts trade copySize copyValue st =
     (let st1 = (if delay opts > 0 then logAction [Sleep (delay opts)] st else st)
      in if \<not> truthy (tokenId trade) then skipTrade st1
         else
           let tok = the (tokenId trade)
           in if \<not> dryRun opts \<and> side trade = SELL \<and> sellFullPosition opts then
                let st2 = logAction [QueryBalance ''CONDITIONAL''] st1
                in (case getBalanceConditional ts of
                      Throws e \<Rightarrow> preflight opts ts trade tok copySize copyValue st2
                    | Returns tokenBalance \<Rightarrow>
                        let availableShares = tokenBalance / 1000000
                        in if availableShares < MIN_SHARES then skipTrade st2
                           else preflight opts ts trade tok availableShares
                                  (availableShares * price trade) st2)
              else preflight opts ts trade tok copySize copyValue st1)"

definition passesFilters :: "Options \<Rightarrow> real SmartMoneyTrade \<Rightarrow> bool" where
  "passesFilters opts trade =
     (\<not> tradeSize trade * price trade < minTradeSize opts
      \<and> \<not> (sideFilter opts \<noteq> None \<and> Some (side trade) \<noteq> sideFilter opts)
      \<and> (case priceRange opts of
            None \<Rightarrow> True
          | Some (lo, hi) \<Rightarrow> \<not> (price trade < lo \<or> price trade > hi)))"

text \<open>The \<open>try\<close> block of the handler: the state it leaves and the exception it ends with.\<close>

definition copyBody ::
  "Options \<Rightarrow> TradingService \<Rightarrow> real SmartMoneyTrade \<Rightarrow> ExecState \<Rightarrow> ExecState \<times> Exn option" where
  "copyBody opts ts trade st =
     (if toLowerCase (traderAddress trade) \<notin> set (targetAddresses opts) then (st, None)
      else if tradeSize trade * price trade < minTradeSize opts then skipTrade st
      else if sideFilter opts \<noteq> None \<and> Some (side trade) \<noteq> sideFilter opts then skipTrade st
      else if (case priceRange opts of
                 None \<Rightarrow> False
               | Some (lo, hi) \<Rightarrow> price trade < lo \<or> price trade > hi)
      then ((fst st\<lparr>tradesSkipped := tradesSkipped (fst st) + 1,
                     filteredByPrice := filteredByPrice (fst st) + 1\<rparr>, snd st), None)
      else
        let st1 = (if tradeFilter opts \<noteq> None then logAction [CallTradeFilter] st else st)
        in case tradeFilter opts of
             Some (Throws e) \<Rightarrow> (st1, Some e)
           | Some (Returns False) \<Rightarrow> skipTrade st1
           | _ \<Rightarrow>
               (case sizeCopy opts trade of
                  None \<Rightarrow> skipTrade st1
                | Some (copySize, copyValue) \<Rightarrow> afterSizing opts ts trade copySize copyValue st1))"

text \<open>
  The handler a session registers: the statistics and the calls after the event, and the
  exception that leaves the handler, if any.
\<close>

definition copyHandler ::
  "Options \<Rightarrow> TradingService \<Rightarrow> real SmartMoneyTrade \<Rightarrow> Stats \<Rightarrow> ExecState \<times> Exn option" where
  "copyHandler opts ts trade stats =
     (case copyBody opts ts trade (stats\<lparr>tradesDetected := tradesDetected stats + 1\<rparr>, []) of
        (st, None) \<Rightarrow> (st, None)
      | (st, Some e) \<Rightarrow>
          let st' = (fst st\<lparr>tradesFailed := tradesFailed (fst st) + 1\<rparr>, snd st)
          in (case onError opts of
                None \<Rightarrow> (st', None)
              | Some (Returns u) \<Rightarrow> (logAction [CallOnError e] st', None)
              | Some (Throws e') \<Rightarrow> (logAction [CallOnError e] st', Some e')))"

text \<open>
  A trade reaches the size computation of the handler when its trader is a target, it
  passes the value, side and price-range filters, and the caller's filter, if any, accepts it.
\<close>

definition reachesSizing :: "Options \<Rightarrow> real SmartMoneyTrade \<Rightarrow> bool" where
  "reachesSizing opts trade =
     (toLowerCase (traderAddress trade) \<in> set (targetAddresses opts)
      \<and> passesFilters opts trade
      \<and> (tradeFilter opts = None \<or> tradeFilter opts = Some (Returns True)))"

section \<open>Runs of the detectors\<close>

text \<open>
  The window as the detectors keep it: a set (no duplicates) of at most 1000 hashes.
  A hash is recent at depth \<open>k\<close> when it is among the last \<open>k\<close> entries.
\<close>

definition windowOk :: "string list \<Rightarrow> bool" where
  "windowOk w = (distinct w \<and> length w \<le> 1000)"

definition recent :: "nat \<Rightarrow> string \<Rightarrow> string list \<Rightarrow> bool" where
  "recent k h w = (h \<in> set (drop (length w - k) w))"

text \<open>
  A delivery is one activity reaching the polling loop or one message reaching the
  mempool handler; a run delivers a list of them, one after the other, and collects the
  handler calls. \<open>carriesHash\<close> holds of a delivery that brings the hash \<open>h\<close> to
  its detector in a form the detector dispatches: an activity with a wallet address, or a
  message that gets past the filters of the mempool handler.
\<close>

datatype Delivery = FromPolling Activity | FromMempool "MempoolMsg option"

definition deliver :: "CalldataDecoder \<Rightarrow> int \<Rightarrow> Service \<Rightarrow> Delivery \<Rightarrow> Service \<times> HandlerCall list" where
  "deliver dec nowMs s d =
     (case d of FromPolling a \<Rightarrow> pollLoop nowMs s [a]
      | FromMempool data \<Rightarrow> handleMempoolMessage dec nowMs s data)"

fun deliverAll :: "CalldataDecoder \<Rightarrow> int \<Rightarrow> Service \<Rightarrow> Delivery list \<Rightarrow> Service \<times> HandlerCall list" where
  "deliverAll dec nowMs s [] = (s, [])"
| "deliverAll dec nowMs s (d # ds) =
     (let r1 = deliver dec nowMs s d; r2 = deliverAll dec nowMs (fst r1) ds
      in (fst r2, snd r1 @ snd r2))"

definition carriesHash :: "CalldataDecoder \<Rightarrow> Service \<Rightarrow> string \<Rightarrow> Delivery \<Rightarrow> bool" where
  "carriesHash dec s h d =
     (case d of
        FromPolling a \<Rightarrow> transactionHash a = h \<and> truthy (map_option toLowerCase (proxyWallet a))
      | FromMempool data \<Rightarrow>
          (case mempoolCandidate dec s data of
             None \<Rightarrow> False
           | Some (tx, decoded, targetTrader) \<Rightarrow> tx_hash tx = Some h))"

section \<open>Example values\<close>

definition exampleService :: Service where
  "exampleService =
     \<lparr>pollIntervalId = Some 1, lastCheckTimestamp = 100, seenTxHashes = [''0xaa''],
      tradeHandlers = [7, 8], targetWallets = [''0xabc''], pollInterval = 5000,
      mempoolWs = Some 2, mempoolTargetAddresses = [''0xabc''], smartMoneySet = []\<rparr>"

definition exampleActivity :: "string \<Rightarrow> int \<Rightarrow> Activity" where
  "exampleActivity h t =
     \<lparr>proxyWallet = Some ''0xABC'', a_name = None, a_conditionId = None, slug = None,
      a_side = BUY, a_size = 100, a_price = 0.5, asset = Some ''tok'', a_outcome = None,
      transactionHash = h, a_timestamp = t\<rparr>"

definition exampleOrder :: "OrderSide \<Rightarrow> Order" where
  "exampleOrder sd =
     \<lparr>maker = ''0xabc'', signer = ''0xabc'', o_tokenId = ''tok'', o_side = sd,
      makerAmount = 50000000, takerAmount = 100000000\<rparr>"

definition exampleDecoder :: "OrderSide \<Rightarrow> CalldataDecoder" where
  "exampleDecoder sd =
     \<lparr>ROUTER_ADDRESSES = [''0xe''], MATCH_ORDERS_SELECTOR = ''0x2'',
      decodeMatchOrdersCalldata =
        (\<lambda>inp. Some \<lparr>takerOrder = exampleOrder sd, makerOrders = []\<rparr>),
      extractTraderAddresses = (\<lambda>d. maker (takerOrder d) # map maker (makerOrders d))\<rparr>"

definition exampleMsg :: "string option \<Rightarrow> MempoolMsg option" where
  "exampleMsg h =
     Some \<lparr>msg_id = None, msg_result = False,
           params_result = Some \<lparr>tx_to = Some ''0xE'', tx_input = Some ''0x2ff'', tx_hash = h\<rparr>\<rparr>"

definition exampleHashes :: "nat \<Rightarrow> string list" where
  "exampleHashes n = map (\<lambda>i. replicate (Suc i) CHR ''a'') [0 ..< n]"

definition exampleGetActivity :: "string \<Rightarrow> int \<Rightarrow> Activity list Response" where
  "exampleGetActivity wallet start =
     (if wallet = ''0xabc''
      then Fetched [exampleActivity ''0xbb'' 101, exampleActivity ''0xcc'' 103]
      else Failed)"

definition okResult :: OrderResult where
  "okResult = \<lparr>success = True, orderId = Some ''order-1'', errorMsg = None\<rparr>"

definition exampleOptions :: Options where
  "exampleOptions =
     \<lparr>targetAddresses = [''0xabc''], sizeScale = 0.1, maxSizePerTrade = 50, maxSlippage = 0.03,
      orderType = FOK, minTradeSize = 10, sideFilter = None, delay = 0, dryRun = False,
      orderMode = Market, limitPriceOffset = 0.01, splitCount = 1, splitSpread = 0.001,
      retryCount = 3, retryDelay = 1000, priceRange = None, sellFullPosition = False,
      tradeFilter = None, preOrderCheck = None, orderManager = None,
      handleRegistration = Returns (), onOrderPlaced = None,
      onTrade = Some (Returns ()), onError = Some (Returns ())\<rparr>"

definition exampleTrading :: TradingService where
  "exampleTrading =
     \<lparr>getBalanceConditional = Returns 20000000,
      getBalanceCollateral = Throws (Thrown ''timeout''),
      createBatchOrders = (\<lambda>attempt. Returns okResult),
      createLimitOrder = (\<lambda>attempt. Returns okResult),
      createMarketOrder = (\<lambda>attempt. Returns okResult)\<rparr>"

definition exampleTrade :: "real SmartMoneyTrade" where
  "exampleTrade =
     \<lparr>traderAddress = ''0xABC'', traderName = None, conditionId = None, marketSlug = None,
      side = BUY, tradeSize = 1000, price = 0.6, tokenId = Some ''tok'', outcome = None,
      txHash = Some ''0xbb'', timestamp = 101, isSmartMoney = False, detectedAt = Some 102000,
      detectionSource = Some Polling\<rparr>"

definition exampleStats :: Stats where
  "exampleStats =
     \<lparr>tradesDetected = 0, tradesExecuted = 0, tradesSkipped = 0, tradesFailed = 0,
      totalUsdcSpent = 0, filteredByPrice = 0\<rparr>"



section \<open>Properties of the dedup window\<close>

lemma fold_setDelete_filter: "fold setDelete xs w = filter (\<lambda>x. x \<notin> set xs) w"
proof (induction xs arbitrary: w)
  case Nil
  then show ?case by simp
next
  case (Cons x xs)
  have "fold setDelete (x # xs) w = fold setDelete xs (removeAll x w)"
    by (simp add: setDelete_def)
  also have "\<dots> = filter (\<lambda>y. y \<notin> set xs) (removeAll x w)"
    by (rule Cons.IH)
  also have "\<dots> = filter (\<lambda>y. y \<notin> set (x # xs)) w"
    by (induction w) auto
  finally show ?case .
qed

lemma filter_take_drop:
  assumes "distinct w"
  shows "filter (\<lambda>x. x \<notin> set (take n w)) w = drop n w"
proof -
  have d: "distinct (take n w @ drop n w)" using assms by simp
  then have disj: "set (take n w) \<inter> set (drop n w) = {}" by (simp only: distinct_append)
  have "filter (\<lambda>x. x \<notin> set (take n w)) w
        = filter (\<lambda>x. x \<notin> set (take n w)) (take n w @ drop n w)"
    by simp
  also have "\<dots> = filter (\<lambda>x. x \<notin> set (take n w)) (take n w)
        @ filter (\<lambda>x. x \<notin> set (take n w)) (drop n w)"
    by (rule filter_append)
  also have "filter (\<lambda>x. x \<notin> set (take n w)) (take n w) = []"
    by (simp add: filter_empty_conv)
  also have "filter (\<lambda>x. x \<notin> set (take n w)) (drop n w) = drop n w"
    using disj by (auto simp: filter_id_conv)
  finally show ?thesis by simp
qed

lemma pruneSeen_distinct_eq:
  "distinct w \<Longrightarrow> pruneSeen w = (if length w > 1000 then drop 500 w else w)"
  by (simp add: pruneSeen_def fold_setDelete_filter filter_take_drop)

lemma distinct_setAdd: "distinct w \<Longrightarrow> distinct (setAdd h w)"
  by (simp add: setAdd_def)

lemma markSeen_eq:
  "distinct w \<Longrightarrow> markSeen h w =
     (if h \<in> set w then (if length w > 1000 then drop 500 w else w)
      else if length w \<ge> 1000 then drop 500 (w @ [h]) else w @ [h])"
  by (auto simp add: markSeen_def pruneSeen_distinct_eq distinct_setAdd setAdd_def)

lemma distinct_markSeen: "distinct w \<Longrightarrow> distinct (markSeen h w)"
  by (simp add: markSeen_def pruneSeen_distinct_eq distinct_setAdd)

lemma length_markSeen: "distinct w \<Longrightarrow> length w \<le> 1000 \<Longrightarrow> length (markSeen h w) \<le> 1000"
  by (auto simp add: markSeen_eq)

lemma fold_markSeen_small:
  "distinct hs \<Longrightarrow> length hs \<le> 1000 \<Longrightarrow> fold markSeen hs [] = hs"
proof (induction hs rule: rev_induct)
  case Nil
  then show ?case by simp
next
  case (snoc h hs)
  then have "fold markSeen hs [] = hs" by simp
  then show ?case using snoc.prems by (simp add: markSeen_eq)
qed

lemma fold_markSeen_1001:
  assumes "distinct hs" "length hs = 1001"
  shows "fold markSeen hs [] = drop 500 hs"
proof -
  obtain ys y where hs: "hs = ys @ [y]"
    using assms(2) by (cases hs rule: rev_cases) auto
  have "fold markSeen ys [] = ys" using assms hs by (simp add: fold_markSeen_small)
  then show ?thesis using assms hs by (simp add: markSeen_eq)
qed

lemma recent_markSeen:
  assumes "windowOk w" "recent k h w" "k \<le> 500"
  shows "recent (Suc k) h (markSeen g w)"
proof -
  have d: "distinct w" and l: "length w \<le> 1000" using assms(1) by (simp_all add: windowOk_def)
  have sub: "set (drop (length w - k) w) \<subseteq> set (drop (length w - Suc k) w)"
    by (rule set_drop_subset_set_drop) simp
  show ?thesis
  proof (cases "g \<in> set w")
    case True
    then have "markSeen g w = w" using d l by (simp add: markSeen_eq)
    then show ?thesis using assms(2) sub by (auto simp: recent_def)
  next
    case False
    show ?thesis
    proof (cases "length w = 1000")
      case True
      then have "markSeen g w = drop 500 (w @ [g])" using d False by (simp add: markSeen_eq)
      moreover have "drop (501 - Suc k) (drop 500 (w @ [g])) = drop (1000 - k) w @ [g]"
        using True assms(3) by simp
      ultimately show ?thesis using assms(2) True by (simp add: recent_def)
    next
      case F2: False
      then have "markSeen g w = w @ [g]" using d l False by (simp add: markSeen_eq)
      then show ?thesis using assms(2) by (simp add: recent_def)
    qed
  qed
qed

lemma recent_mem: "recent k h w \<Longrightarrow> h \<in> set w"
  by (auto simp: recent_def dest: in_set_dropD)

lemma recent_markSeen_new:
  assumes "windowOk w" "h \<notin> set w"
  shows "recent (Suc 0) h (markSeen h w)"
proof -
  have d: "distinct w" and l: "length w \<le> 1000" using assms(1) by (simp_all add: windowOk_def)
  show ?thesis
  proof (cases "length w = 1000")
    case True
    then have "markSeen h w = drop 500 (w @ [h])" using d assms(2) by (simp add: markSeen_eq)
    then show ?thesis using True by (simp add: recent_def)
  next
    case False
    then have "markSeen h w = w @ [h]" using d l assms(2) by (simp add: markSeen_eq)
    then show ?thesis by (simp add: recent_def)
  qed
qed

lemma windowOk_markSeen: "windowOk w \<Longrightarrow> windowOk (markSeen h w)"
  by (simp add: windowOk_def distinct_markSeen length_markSeen)

lemma recent_Suc: "recent k h w \<Longrightarrow> recent (Suc k) h w"
proof -
  have "set (drop (length w - k) w) \<subseteq> set (drop (length w - Suc k) w)"
    by (rule set_drop_subset_set_drop) simp
  then show "recent k h w \<Longrightarrow> recent (Suc k) h w" by (auto simp: recent_def)
qed

lemma txHash_activityTrade:
  "activityToSmartMoneyTrade s a = Some t \<Longrightarrow> txHash t = Some (transactionHash a)"
  by (auto simp: activityToSmartMoneyTrade_def Let_def split: if_splits)

lemma pollLoop_single:
  "pollLoop nowMs s [a] =
     (if setHas (transactionHash a) (seenTxHashes s) then (s, [])
      else let s' = s\<lparr>seenTxHashes := markSeen (transactionHash a) (seenTxHashes s)\<rparr>
           in case activityToSmartMoneyTrade s' a of
                None \<Rightarrow> (s', [])
              | Some trade \<Rightarrow>
                  (s', notify s' (trade\<lparr>detectedAt := Some nowMs, detectionSource := Some Polling\<rparr>)))"
  by (simp add: Let_def split: option.splits)

lemma poll_step_retained:
  assumes "windowOk (seenTxHashes s)" "recent k h (seenTxHashes s)" "k \<le> 500"
  shows "windowOk (seenTxHashes (fst (pollLoop nowMs s [a])))
       \<and> recent (Suc k) h (seenTxHashes (fst (pollLoop nowMs s [a])))
       \<and> (\<forall>c \<in> set (snd (pollLoop nowMs s [a])). txHash (snd c) \<noteq> Some h)"
proof (cases "setHas (transactionHash a) (seenTxHashes s)")
  case True
  then show ?thesis using assms by (simp add: recent_Suc)
next
  case False
  have hin: "h \<in> set (seenTxHashes s)" using assms(2) by (rule recent_mem)
  then have ne: "transactionHash a \<noteq> h" using False by (auto simp: setHas_def)
  show ?thesis
    using False assms ne
    by (auto simp: pollLoop_single Let_def notify_def windowOk_markSeen recent_markSeen
          dest: txHash_activityTrade split: option.splits)
qed

lemma mempool_step_retained:
  assumes "windowOk (seenTxHashes s)" "recent k h (seenTxHashes s)" "k \<le> 500" "h \<noteq> []"
  shows "windowOk (seenTxHashes (fst (handleMempoolMessage dec nowMs s data)))
       \<and> recent (Suc k) h (seenTxHashes (fst (handleMempoolMessage dec nowMs s data)))
       \<and> (\<forall>c \<in> set (snd (handleMempoolMessage dec nowMs s data)). txHash (snd c) \<noteq> Some h)"
proof -
  have hin: "h \<in> set (seenTxHashes s)" using assms(2) by (rule recent_mem)
  show ?thesis
    using assms hin
    by (auto simp: handleMempoolMessage_def Let_def notify_def mempoolTrade_def truthy_def
          setHas_def windowOk_markSeen recent_markSeen recent_Suc
          split: option.splits prod.splits)
qed

text \<open>A polling tick is the run of the deliveries of its activities.\<close>

lemma pollLoop_deliverAll:
  "pollLoop nowMs s as = deliverAll dec nowMs s (map FromPolling as)"
proof (induction as arbitrary: s)
  case Nil
  then show ?case by simp
next
  case (Cons a as)
  show ?case
  proof (cases "setHas (transactionHash a) (seenTxHashes s)")
    case True
    then show ?thesis using Cons.IH [of s] by (simp add: deliver_def)
  next
    case False
    let ?s' = "s\<lparr>seenTxHashes := markSeen (transactionHash a) (seenTxHashes s)\<rparr>"
    show ?thesis
      using False Cons.IH [of ?s']
      by (simp add: deliver_def Let_def split: option.splits)
  qed
qed

lemma deliver_retained:
  assumes "windowOk (seenTxHashes s)" "recent k h (seenTxHashes s)" "k \<le> 500" "h \<noteq> []"
  shows "windowOk (seenTxHashes (fst (deliver dec nowMs s d)))
       \<and> recent (Suc k) h (seenTxHashes (fst (deliver dec nowMs s d)))
       \<and> (\<forall>c \<in> set (snd (deliver dec nowMs s d)). txHash (snd c) \<noteq> Some h)"
proof (cases d)
  case (FromPolling a)
  then show ?thesis using poll_step_retained [OF assms(1-3)] by (simp add: deliver_def)
next
  case (FromMempool data)
  then show ?thesis using mempool_step_retained [OF assms] by (simp add: deliver_def)
qed

lemma deliverAll_retained:
  assumes "windowOk (seenTxHashes s)" "recent k h (seenTxHashes s)" "k + length ds \<le> 501" "h \<noteq> []"
  shows "\<forall>c \<in> set (snd (deliverAll dec nowMs s ds)). txHash (snd c) \<noteq> Some h"
  using assms
proof (induction ds arbitrary: s k)
  case Nil
  then show ?case by simp
next
  case (Cons d ds)
  have k: "k \<le> 500" using Cons.prems(3) by simp
  note step = deliver_retained [OF Cons.prems(1) Cons.prems(2) k Cons.prems(4), of dec nowMs d]
  have "\<forall>c \<in> set (snd (deliverAll dec nowMs (fst (deliver dec nowMs s d)) ds)). txHash (snd c) \<noteq> Some h"
  proof (rule Cons.IH)
    show "windowOk (seenTxHashes (fst (deliver dec nowMs s d)))" using step by simp
    show "recent (Suc k) h (seenTxHashes (fst (deliver dec nowMs s d)))" using step by simp
    show "Suc k + length ds \<le> 501" using Cons.prems(3) by simp
    show "h \<noteq> []" by (rule Cons.prems(4))
  qed
  then show ?case using step by (auto simp: Let_def)
qed

lemma deliver_first:
  assumes "windowOk (seenTxHashes s)" "h \<notin> set (seenTxHashes s)" "h \<noteq> []" "carriesHash dec s h d"
  shows "windowOk (seenTxHashes (fst (deliver dec nowMs s d)))
       \<and> recent (Suc 0) h (seenTxHashes (fst (deliver dec nowMs s d)))
       \<and> (\<forall>c \<in> set (snd (deliver dec nowMs s d)). txHash (snd c) = Some h)
       \<and> map fst (snd (deliver dec nowMs s d)) = tradeHandlers s"
proof (cases d)
  case (FromPolling a)
  then show ?thesis
    using assms
    by (auto simp: deliver_def carriesHash_def pollLoop_single Let_def setHas_def notify_def
          activityToSmartMoneyTrade_def windowOk_markSeen recent_markSeen_new comp_def
          split: option.splits)
next
  case (FromMempool data)
  then show ?thesis
    using assms
    by (auto simp: deliver_def carriesHash_def handleMempoolMessage_def Let_def setHas_def
          notify_def mempoolTrade_def truthy_def windowOk_markSeen recent_markSeen_new comp_def
          split: option.splits prod.splits)
qed

lemma dedup_exactly_once:
  assumes "windowOk (seenTxHashes s)" "h \<notin> set (seenTxHashes s)" "h \<noteq> []"
    "carriesHash dec s h d" "length ds \<le> 500"
  shows "map fst (filter (\<lambda>c. txHash (snd c) = Some h) (snd (deliverAll dec nowMs s (d # ds))))
         = tradeHandlers s"
proof -
  note first = deliver_first [OF assms(1-4), of nowMs]
  have rest: "\<forall>c \<in> set (snd (deliverAll dec nowMs (fst (deliver dec nowMs s d)) ds)). txHash (snd c) \<noteq> Some h"
  proof (rule deliverAll_retained)
    show "windowOk (seenTxHashes (fst (deliver dec nowMs s d)))" using first by simp
    show "recent (Suc 0) h (seenTxHashes (fst (deliver dec nowMs s d)))" using first by simp
    show "Suc 0 + length ds \<le> 501" using assms(5) by simp
    show "h \<noteq> []" by (rule assms(3))
  qed
  have f1: "filter (\<lambda>c. txHash (snd c) = Some h) (snd (deliver dec nowMs s d)) = snd (deliver dec nowMs s d)"
    using first by (simp add: filter_id_conv)
  have f2: "filter (\<lambda>c. txHash (snd c) = Some h) (snd (deliverAll dec nowMs (fst (deliver dec nowMs s d)) ds)) = []"
    using rest by (simp add: filter_empty_conv)
  show ?thesis using first f1 f2 by (simp add: Let_def)
qed

lemma ex_candidate: "mempoolCandidate (exampleDecoder sd) exampleService (exampleMsg h)
  = Some (\<lparr>tx_to = Some ''0xE'', tx_input = Some ''0x2ff'', tx_hash = h\<rparr>, \<lparr>takerOrder = exampleOrder sd, makerOrders = []\<rparr>, ''0xabc'')"
  by (simp add: mempoolCandidate_def exampleDecoder_def exampleService_def exampleMsg_def truthy_def
      toLowerCase_def lowerChar_def setHas_def startsWith_def exampleOrder_def)

lemma pollLoop_windowOk:
  "windowOk (seenTxHashes s) \<Longrightarrow> windowOk (seenTxHashes (fst (pollLoop nowMs s as)))"
proof (induction as arbitrary: s)
  case Nil
  then show ?case by simp
next
  case (Cons a as)
  let ?s' = "s\<lparr>seenTxHashes := markSeen (transactionHash a) (seenTxHashes s)\<rparr>"
  have ok': "windowOk (seenTxHashes ?s')" using Cons.prems by (simp add: windowOk_markSeen)
  show ?case
    using Cons.IH [OF Cons.prems] Cons.IH [OF ok']
    by (simp add: Let_def split: option.splits)
qed

lemma mempool_windowOk:
  "windowOk (seenTxHashes s) \<Longrightarrow> windowOk (seenTxHashes (fst (handleMempoolMessage dec nowMs s data)))"
  by (auto simp: handleMempoolMessage_def Let_def windowOk_markSeen split: option.splits prod.splits)

lemma fold_markSeen_windowOk: "windowOk w \<Longrightarrow> windowOk (fold markSeen hs w)"
  by (induction hs arbitrary: w) (simp_all add: windowOk_markSeen)

lemma mempool_seen_skip:
  assumes "params_result msg = Some tx" "tx_hash tx = Some g" "g \<noteq> []" "setHas g (seenTxHashes s)"
  shows "handleMempoolMessage dec nowMs s (Some msg) = (s, [])"
proof (cases "mempoolCandidate dec s (Some msg)")
  case None
  then show ?thesis by (simp add: handleMempoolMessage_def)
next
  case (Some c)
  obtain tx' decoded trader where c: "c = (tx', decoded, trader)" by (cases c) auto
  have "tx' = tx"
    using Some c assms(1)
    by (auto simp: mempoolCandidate_def Let_def split: if_splits option.splits)
  then show ?thesis using Some c assms by (simp add: handleMempoolMessage_def truthy_def)
qed

text \<open>
  Claim C1, as amended. A hash that is in the window is not forwarded again by either
  detector: the polling loop skips an activity whose transaction hash is in the window, and
  the mempool handler returns without a call when the hash of the pending transaction is in
  the window. When a hash that is not yet in the window is first delivered in a form its
  detector dispatches (an activity with a wallet address, or a message that gets past the
  filters of the mempool handler), and up to 500 further deliveries follow (among them the
  same hash from the other detector), the calls that carry the hash are exactly one per
  registered handler.
\<close>

theorem dedup_window_suppresses_second_delivery:
  "(setHas (transactionHash a) (seenTxHashes s) \<longrightarrow> pollLoop nowMs s (a # as) = pollLoop nowMs s as)
   \<and> (params_result msg = Some tx \<and> tx_hash tx = Some g \<and> g \<noteq> [] \<and> setHas g (seenTxHashes s)
        \<longrightarrow> handleMempoolMessage dec nowMs s (Some msg) = (s, []))
   \<and> (distinct (seenTxHashes s) \<and> length (seenTxHashes s) \<le> 1000
        \<and> h \<notin> set (seenTxHashes s) \<and> h \<noteq> [] \<and> carriesHash dec s h d \<and> length ds \<le> 500
        \<longrightarrow> map fst (filter (\<lambda>c. txHash (snd c) = Some h)
                        (snd (deliverAll dec nowMs s (d # ds)))) = tradeHandlers s)"
proof (intro conjI impI)
  assume "setHas (transactionHash a) (seenTxHashes s)"
  then show "pollLoop nowMs s (a # as) = pollLoop nowMs s as" by simp
next
  assume "params_result msg = Some tx \<and> tx_hash tx = Some g \<and> g \<noteq> [] \<and> setHas g (seenTxHashes s)"
  then show "handleMempoolMessage dec nowMs s (Some msg) = (s, [])"
    by (simp add: mempool_seen_skip)
next
  assume "distinct (seenTxHashes s) \<and> length (seenTxHashes s) \<le> 1000
        \<and> h \<notin> set (seenTxHashes s) \<and> h \<noteq> [] \<and> carriesHash dec s h d \<and> length ds \<le> 500"
  then have "windowOk (seenTxHashes s)" and "h \<notin> set (seenTxHashes s)" and "h \<noteq> []"
    and "carriesHash dec s h d" and "length ds \<le> 500"
    by (simp_all add: windowOk_def)
  then show "map fst (filter (\<lambda>c. txHash (snd c) = Some h)
                        (snd (deliverAll dec nowMs s (d # ds)))) = tradeHandlers s"
    by (rule dedup_exactly_once)
qed

theorem dedup_window_suppresses_second_delivery_witness:
  "pollLoop 0 exampleService [exampleActivity ''0xaa'' 1] = (exampleService, [])
   \<and> handleMempoolMessage (exampleDecoder OrderBUY) 0 exampleService (exampleMsg (Some ''0xaa''))
       = (exampleService, [])
   \<and> map fst (filter (\<lambda>c. txHash (snd c) = Some ''0xbb'')
        (snd (deliverAll (exampleDecoder OrderBUY) 0 exampleService
           [FromPolling (exampleActivity ''0xbb'' 1), FromMempool (exampleMsg (Some ''0xbb''))])))
       = [7, 8]"
  using dedup_window_suppresses_second_delivery
    [where a = "exampleActivity ''0xaa'' 1" and s = exampleService and nowMs = 0 and as = "[]"
       and msg = "the (exampleMsg (Some ''0xaa''))"
       and tx = "\<lparr>tx_to = Some ''0xE'', tx_input = Some ''0x2ff'', tx_hash = Some ''0xaa''\<rparr>"
       and g = "''0xaa''" and dec = "exampleDecoder OrderBUY" and h = "''0xbb''"
       and d = "FromPolling (exampleActivity ''0xbb'' 1)"
       and ds = "[FromMempool (exampleMsg (Some ''0xbb''))]"]
  by (simp add: exampleService_def exampleActivity_def exampleMsg_def setHas_def carriesHash_def
        truthy_def toLowerCase_def)

text \<open>
  The claim as stated fails: the polling loop marks the hash of an activity before it drops
  the activity for its missing wallet address, so the mempool message with the same hash,
  which alone is dispatched to both handlers, is suppressed and no handler is called at all.
\<close>

theorem dedup_wallet_less_counterexample:
  "\<not> setHas ''0xbb'' (seenTxHashes exampleService)
   \<and> tradeHandlers exampleService = [7, 8]
   \<and> map fst (snd (handleMempoolMessage (exampleDecoder OrderBUY) 0 exampleService
                     (exampleMsg (Some ''0xbb'')))) = [7, 8]
   \<and> transactionHash ((exampleActivity ''0xbb'' 1)\<lparr>proxyWallet := None\<rparr>) = ''0xbb''
   \<and> snd (deliverAll (exampleDecoder OrderBUY) 0 exampleService
            [FromPolling ((exampleActivity ''0xbb'' 1)\<lparr>proxyWallet := None\<rparr>),
             FromMempool (exampleMsg (Some ''0xbb''))]) = []"
proof -
  have c: "mempoolCandidate (exampleDecoder OrderBUY) s (exampleMsg (Some ''0xbb''))
         = Some (\<lparr>tx_to = Some ''0xE'', tx_input = Some ''0x2ff'', tx_hash = Some ''0xbb''\<rparr>,
                 \<lparr>takerOrder = exampleOrder OrderBUY, makerOrders = []\<rparr>, ''0xabc'')"
    if "mempoolTargetAddresses s = [''0xabc'']" for s
    using that
    by (simp add: mempoolCandidate_def exampleDecoder_def exampleMsg_def truthy_def
          toLowerCase_def lowerChar_def setHas_def startsWith_def exampleOrder_def)
  have t: "mempoolTargetAddresses exampleService = [''0xabc'']" by (simp add: exampleService_def)
  show ?thesis
    by (simp add: deliver_def handleMempoolMessage_def c t activityToSmartMoneyTrade_def
          exampleActivity_def truthy_def setHas_def markSeen_def pruneSeen_def setAdd_def
          notify_def Let_def)
       (simp add: exampleService_def)
qed

lemma distinct_exampleHashes: "distinct (exampleHashes n)"
proof -
  have "inj_on (\<lambda>i. replicate (Suc i) CHR ''a'') (set [0 ..< n])"
  proof (rule inj_onI)
    fix i j
    assume "replicate (Suc i) CHR ''a'' = replicate (Suc j) CHR ''a''"
    then have "length (replicate (Suc i) CHR ''a'') = length (replicate (Suc j) CHR ''a'')"
      by (rule arg_cong)
    then show "i = j" by simp
  qed
  then show ?thesis by (simp add: exampleHashes_def distinct_map)
qed

lemma markSeen_full:
  assumes "distinct w" "length w = 1000" "g \<notin> set w"
  shows "markSeen g w = drop 500 w @ [g]"
  using assms by (simp add: markSeen_eq)

text \<open>
  Claim C3. The window never holds more than 1000 hashes after a mark: this holds after any
  sequence of marks from the empty window, and both detectors keep it. A mark that finds
  1000 entries evicts the 500 oldest at once, and after 1001 distinct hashes the window
  holds the 501 inserted last.
\<close>

theorem dedup_window_bounded:
  "length (fold markSeen hs []) \<le> 1000
   \<and> (distinct (seenTxHashes s) \<and> length (seenTxHashes s) \<le> 1000
        \<longrightarrow> length (seenTxHashes (fst (pollLoop nowMs s as))) \<le> 1000
          \<and> length (seenTxHashes (fst (handleMempoolMessage dec nowMs s data))) \<le> 1000)
   \<and> (distinct w \<and> length w = 1000 \<and> g \<notin> set w \<longrightarrow> markSeen g w = drop 500 w @ [g])
   \<and> (distinct gs \<and> length gs = 1001 \<longrightarrow> fold markSeen gs [] = drop 500 gs)"
proof (intro conjI impI)
  have "windowOk (fold markSeen hs [])" by (rule fold_markSeen_windowOk) (simp add: windowOk_def)
  then show "length (fold markSeen hs []) \<le> 1000" by (simp add: windowOk_def)
next
  assume "distinct (seenTxHashes s) \<and> length (seenTxHashes s) \<le> 1000"
  then have "windowOk (seenTxHashes s)" by (simp add: windowOk_def)
  then have "windowOk (seenTxHashes (fst (pollLoop nowMs s as)))" by (rule pollLoop_windowOk)
  then show "length (seenTxHashes (fst (pollLoop nowMs s as))) \<le> 1000" by (simp add: windowOk_def)
next
  assume "distinct (seenTxHashes s) \<and> length (seenTxHashes s) \<le> 1000"
  then have "windowOk (seenTxHashes s)" by (simp add: windowOk_def)
  then have "windowOk (seenTxHashes (fst (handleMempoolMessage dec nowMs s data)))"
    by (rule mempool_windowOk)
  then show "length (seenTxHashes (fst (handleMempoolMessage dec nowMs s data))) \<le> 1000"
    by (simp add: windowOk_def)
next
  assume "distinct w \<and> length w = 1000 \<and> g \<notin> set w"
  then show "markSeen g w = drop 500 w @ [g]" by (simp add: markSeen_full)
next
  assume "distinct gs \<and> length gs = 1001"
  then show "fold markSeen gs [] = drop 500 gs" by (simp add: fold_markSeen_1001)
qed

theorem dedup_window_bounded_witness:
  "length (seenTxHashes (fst (pollLoop 0 exampleService [exampleActivity ''0xbb'' 1]))) \<le> 1000
   \<and> length (seenTxHashes (fst (handleMempoolMessage (exampleDecoder OrderBUY) 0 exampleService
        (exampleMsg (Some ''0xbb''))))) \<le> 1000
   \<and> markSeen ''b'' (exampleHashes 1000) = drop 500 (exampleHashes 1000) @ [''b'']
   \<and> fold markSeen (exampleHashes 1001) [] = drop 500 (exampleHashes 1001)"
proof -
  have 1: "distinct (seenTxHashes exampleService) \<and> length (seenTxHashes exampleService) \<le> 1000"
    by (simp add: exampleService_def)
  have "length (exampleHashes 1000) = 1000" and "''b'' \<notin> set (exampleHashes 1000)"
    by (auto simp: exampleHashes_def)
  then have 2: "distinct (exampleHashes 1000) \<and> length (exampleHashes 1000) = 1000
           \<and> ''b'' \<notin> set (exampleHashes 1000)"
    using distinct_exampleHashes [of 1000] by blast
  have "length (exampleHashes 1001) = 1001" by (simp add: exampleHashes_def)
  then have 3: "distinct (exampleHashes 1001) \<and> length (exampleHashes 1001) = 1001"
    using distinct_exampleHashes [of 1001] by blast
  show ?thesis
    using dedup_window_bounded
      [where s = exampleService and nowMs = 0 and as = "[exampleActivity ''0xbb'' 1]"
         and dec = "exampleDecoder OrderBUY" and data = "exampleMsg (Some ''0xbb'')"
         and w = "exampleHashes 1000" and g = "''b''" and gs = "exampleHashes 1001"] 1 2 3
    by blast
qed

section \<open>Properties of the pending-transaction detector\<close>

lemma mempoolCandidate_SomeI:
  assumes "\<not> (msg_id msg = Some 1 \<and> msg_result msg)" "params_result msg = Some tx"
    "tx_to tx = Some recipient" "recipient \<noteq> []"
    "setHas (toLowerCase recipient) (ROUTER_ADDRESSES dec)"
    "tx_input tx = Some inp" "inp \<noteq> []" "startsWith inp (MATCH_ORDERS_SELECTOR dec)"
    "decodeMatchOrdersCalldata dec inp = Some decoded"
    "find (\<lambda>addr. setHas addr (mempoolTargetAddresses s)) (extractTraderAddresses dec decoded)
       = Some trader"
    "trader \<noteq> []"
  shows "mempoolCandidate dec s (Some msg) = Some (tx, decoded, trader)"
  using assms by (simp add: mempoolCandidate_def truthy_def)

lemma mempoolCandidate_window:
  "mempoolCandidate dec (s\<lparr>seenTxHashes := w\<rparr>) data = mempoolCandidate dec s data"
  by (simp add: mempoolCandidate_def Let_def split: option.splits)

lemma handle_hashless:
  assumes "mempoolCandidate dec s data = Some (tx, decoded, trader)" "tx_hash tx = None"
  shows "handleMempoolMessage dec nowMs s data
         = (s, map (\<lambda>h. (h, mempoolTrade s nowMs trader (findTargetOrder decoded trader) None))
                 (tradeHandlers s))"
  using assms by (simp add: handleMempoolMessage_def truthy_def notify_def)

lemma deliverAll_hashless:
  assumes "mempoolCandidate dec s data = Some (tx, decoded, trader)" "tx_hash tx = None"
  shows "deliverAll dec nowMs s (replicate n (FromMempool data))
         = (s, concat (replicate n
                 (map (\<lambda>h. (h, mempoolTrade s nowMs trader (findTargetOrder decoded trader) None))
                    (tradeHandlers s))))"
  by (induction n) (simp_all add: deliver_def handle_hashless [OF assms] Let_def)

text \<open>
  Claim C10. A settlement message that gets past the filters of the mempool handler, whose
  decoded traders hold a tracked address and whose transaction has no hash, is dispatched
  to every registered handler whatever the dedup window holds, and leaves the window as it
  was; delivered \<open>n\<close> times, it is dispatched \<open>n\<close> times.
\<close>

theorem hashless_message_never_deduplicated:
  assumes "\<not> (msg_id msg = Some 1 \<and> msg_result msg)" "params_result msg = Some tx"
    "tx_to tx = Some recipient" "recipient \<noteq> []"
    "setHas (toLowerCase recipient) (ROUTER_ADDRESSES dec)"
    "tx_input tx = Some inp" "inp \<noteq> []" "startsWith inp (MATCH_ORDERS_SELECTOR dec)"
    "decodeMatchOrdersCalldata dec inp = Some decoded"
    "find (\<lambda>addr. setHas addr (mempoolTargetAddresses s)) (extractTraderAddresses dec decoded)
       = Some trader"
    "trader \<noteq> []" "tx_hash tx = None"
    "calls = map (\<lambda>h. (h, mempoolTrade s nowMs trader (findTargetOrder decoded trader) None))
               (tradeHandlers s)"
  shows "handleMempoolMessage dec nowMs (s\<lparr>seenTxHashes := w\<rparr>) (Some msg)
           = (s\<lparr>seenTxHashes := w\<rparr>, calls)
       \<and> deliverAll dec nowMs s (replicate n (FromMempool (Some msg)))
           = (s, concat (replicate n calls))"
proof -
  have c: "mempoolCandidate dec s (Some msg) = Some (tx, decoded, trader)"
    using assms(1-11) by (rule mempoolCandidate_SomeI)
  then have cw: "mempoolCandidate dec (s\<lparr>seenTxHashes := w\<rparr>) (Some msg) = Some (tx, decoded, trader)"
    by (simp add: mempoolCandidate_window)
  have "handleMempoolMessage dec nowMs (s\<lparr>seenTxHashes := w\<rparr>) (Some msg)
           = (s\<lparr>seenTxHashes := w\<rparr>, calls)"
    using handle_hashless [OF cw assms(12), of nowMs] assms(13) by (simp add: mempoolTrade_def)
  moreover have "deliverAll dec nowMs s (replicate n (FromMempool (Some msg)))
           = (s, concat (replicate n calls))"
    using deliverAll_hashless [OF c assms(12), of nowMs n] assms(13) by simp
  ultimately show ?thesis by simp
qed

theorem hashless_message_never_deduplicated_witness:
  "handleMempoolMessage (exampleDecoder OrderBUY) 5 (exampleService\<lparr>seenTxHashes := [''0xcc'']\<rparr>)
       (exampleMsg None)
     = (exampleService\<lparr>seenTxHashes := [''0xcc'']\<rparr>,
        [(7, mempoolTrade exampleService 5 ''0xabc'' (exampleOrder OrderBUY) None),
         (8, mempoolTrade exampleService 5 ''0xabc'' (exampleOrder OrderBUY) None)])
   \<and> snd (deliverAll (exampleDecoder OrderBUY) 5 exampleService
            (replicate 2 (FromMempool (exampleMsg None))))
     = [(7, mempoolTrade exampleService 5 ''0xabc'' (exampleOrder OrderBUY) None),
        (8, mempoolTrade exampleService 5 ''0xabc'' (exampleOrder OrderBUY) None),
        (7, mempoolTrade exampleService 5 ''0xabc'' (exampleOrder OrderBUY) None),
        (8, mempoolTrade exampleService 5 ''0xabc'' (exampleOrder OrderBUY) None)]"
proof -
  let ?tx = "\<lparr>tx_to = Some ''0xE'', tx_input = Some ''0x2ff'', tx_hash = None\<rparr>"
  let ?msg = "\<lparr>msg_id = None, msg_result = False, params_result = Some ?tx\<rparr>"
  let ?dcd = "\<lparr>takerOrder = exampleOrder OrderBUY, makerOrders = []\<rparr>"
  have m: "exampleMsg None = Some ?msg" by (simp add: exampleMsg_def)
  have f: "findTargetOrder ?dcd ''0xabc'' = exampleOrder OrderBUY"
    by (simp add: findTargetOrder_def exampleOrder_def)
  have h: "tradeHandlers exampleService = [7, 8]" by (simp add: exampleService_def)
  have "handleMempoolMessage (exampleDecoder OrderBUY) 5 (exampleService\<lparr>seenTxHashes := [''0xcc'']\<rparr>) (Some ?msg)
           = (exampleService\<lparr>seenTxHashes := [''0xcc'']\<rparr>, map (\<lambda>h. (h, mempoolTrade exampleService 5 ''0xabc'' (findTargetOrder ?dcd ''0xabc'') None)) (tradeHandlers exampleService))
       \<and> deliverAll (exampleDecoder OrderBUY) 5 exampleService (replicate 2 (FromMempool (Some ?msg)))
           = (exampleService, concat (replicate 2 (map (\<lambda>h. (h, mempoolTrade exampleService 5 ''0xabc'' (findTargetOrder ?dcd ''0xabc'') None)) (tradeHandlers exampleService))))"
    by (rule hashless_message_never_deduplicated
          [where recipient = "''0xE''" and inp = "''0x2ff''" and tx = ?tx])
       (simp_all add: exampleDecoder_def exampleService_def toLowerCase_def lowerChar_def
          setHas_def startsWith_def exampleOrder_def)
  then show ?thesis by (simp add: m f h numeral_2_eq_2)
qed

lemma handle_calls:
  assumes "mempoolCandidate dec s data = Some (tx, decoded, trader)"
    "\<not> (truthy (tx_hash tx) \<and> setHas (the (tx_hash tx)) (seenTxHashes s))"
  shows "snd (handleMempoolMessage dec nowMs s data)
         = map (\<lambda>h. (h, mempoolTrade s nowMs trader (findTargetOrder decoded trader) (tx_hash tx)))
             (tradeHandlers s)"
  using assms by (auto simp: handleMempoolMessage_def notify_def mempoolTrade_def Let_def)

lemma orderPrice_BUY:
  "o_side ord = OrderBUY \<Longrightarrow> takerAmount ord \<noteq> 0 \<Longrightarrow>
     orderPrice ord = Fin (real (makerAmount ord) / real (takerAmount ord))"
  by (simp add: orderPrice_def jsdiv_def)

lemma orderPrice_SELL:
  "o_side ord = OrderSELL \<Longrightarrow> makerAmount ord \<noteq> 0 \<Longrightarrow>
     orderPrice ord = Fin (real (takerAmount ord) / real (makerAmount ord))"
  by (simp add: orderPrice_def jsdiv_def)

text \<open>
  Claim C2. The trade the mempool handler dispatches takes its price and size from the
  target's order: both amounts are scaled by \<open>10\<^sup>-\<^sup>6\<close>; a BUY order gives price
  makerAmount / takerAmount and size takerAmount, a SELL order price takerAmount /
  makerAmount and size makerAmount (the division is JavaScript's when the divisor is
  zero). Raw amounts 50000000 and 100000000 give price 0.5 and size 100 for BUY, price 2
  and size 50 for SELL.
\<close>

theorem mempool_price_size_rule:
  "(mempoolCandidate dec s data = Some (tx, decoded, trader)
      \<and> \<not> (truthy (tx_hash tx) \<and> setHas (the (tx_hash tx)) (seenTxHashes s))
      \<and> ord = findTargetOrder decoded trader
      \<longrightarrow> map fst (snd (handleMempoolMessage dec nowMs s data)) = tradeHandlers s
        \<and> (\<forall>c \<in> set (snd (handleMempoolMessage dec nowMs s data)).
              price (snd c) = orderPrice ord \<and> tradeSize (snd c) = orderSize ord
              \<and> side (snd c) = (if o_side ord = OrderBUY then BUY else SELL)))
   \<and> (o_side ord = OrderBUY \<longrightarrow>
         orderSize ord = real (takerAmount ord) / 10 ^ 6
         \<and> orderPrice ord = jsdiv (real (makerAmount ord) / 10 ^ 6) (real (takerAmount ord) / 10 ^ 6)
         \<and> (takerAmount ord \<noteq> 0 \<longrightarrow>
               orderPrice ord = Fin (real (makerAmount ord) / real (takerAmount ord))))
   \<and> (o_side ord = OrderSELL \<longrightarrow>
         orderSize ord = real (makerAmount ord) / 10 ^ 6
         \<and> orderPrice ord = jsdiv (real (takerAmount ord) / 10 ^ 6) (real (makerAmount ord) / 10 ^ 6)
         \<and> (makerAmount ord \<noteq> 0 \<longrightarrow>
               orderPrice ord = Fin (real (takerAmount ord) / real (makerAmount ord))))
   \<and> orderPrice (exampleOrder OrderBUY) = Fin 0.5 \<and> orderSize (exampleOrder OrderBUY) = 100
   \<and> orderPrice (exampleOrder OrderSELL) = Fin 2 \<and> orderSize (exampleOrder OrderSELL) = 50"
proof (intro conjI impI)
  assume a: "mempoolCandidate dec s data = Some (tx, decoded, trader)
      \<and> \<not> (truthy (tx_hash tx) \<and> setHas (the (tx_hash tx)) (seenTxHashes s))
      \<and> ord = findTargetOrder decoded trader"
  then have calls: "snd (handleMempoolMessage dec nowMs s data)
         = map (\<lambda>h. (h, mempoolTrade s nowMs trader ord (tx_hash tx))) (tradeHandlers s)"
    using handle_calls [of dec s data tx decoded trader nowMs] by simp
  show "map fst (snd (handleMempoolMessage dec nowMs s data)) = tradeHandlers s"
    by (simp add: calls comp_def)
  show "\<forall>c \<in> set (snd (handleMempoolMessage dec nowMs s data)).
              price (snd c) = orderPrice ord \<and> tradeSize (snd c) = orderSize ord
              \<and> side (snd c) = (if o_side ord = OrderBUY then BUY else SELL)"
    by (auto simp: calls mempoolTrade_def)
next
  assume "o_side ord = OrderBUY"
  then show "orderSize ord = real (takerAmount ord) / 10 ^ 6"
    and "orderPrice ord = jsdiv (real (makerAmount ord) / 10 ^ 6) (real (takerAmount ord) / 10 ^ 6)"
    by (simp_all add: orderSize_def orderPrice_def)
next
  assume "o_side ord = OrderBUY" "takerAmount ord \<noteq> 0"
  then show "orderPrice ord = Fin (real (makerAmount ord) / real (takerAmount ord))"
    by (rule orderPrice_BUY)
next
  assume "o_side ord = OrderSELL"
  then show "orderSize ord = real (makerAmount ord) / 10 ^ 6"
    and "orderPrice ord = jsdiv (real (takerAmount ord) / 10 ^ 6) (real (makerAmount ord) / 10 ^ 6)"
    by (simp_all add: orderSize_def orderPrice_def)
next
  assume "o_side ord = OrderSELL" "makerAmount ord \<noteq> 0"
  then show "orderPrice ord = Fin (real (takerAmount ord) / real (makerAmount ord))"
    by (rule orderPrice_SELL)
next
  show "orderPrice (exampleOrder OrderBUY) = Fin 0.5"
    by (simp add: orderPrice_def exampleOrder_def jsdiv_def)
  show "orderSize (exampleOrder OrderBUY) = 100"
    by (simp add: orderSize_def exampleOrder_def)
  show "orderPrice (exampleOrder OrderSELL) = Fin 2"
    by (simp add: orderPrice_def exampleOrder_def jsdiv_def)
  show "orderSize (exampleOrder OrderSELL) = 50"
    by (simp add: orderSize_def exampleOrder_def)
qed

theorem mempool_price_size_rule_witness:
  "map (\<lambda>c. (fst c, price (snd c), tradeSize (snd c), side (snd c)))
     (snd (handleMempoolMessage (exampleDecoder OrderBUY) 5 exampleService
        (exampleMsg (Some ''0xbb''))))
     = [(7, Fin 0.5, 100, BUY), (8, Fin 0.5, 100, BUY)]
   \<and> map (\<lambda>c. (fst c, price (snd c), tradeSize (snd c), side (snd c)))
     (snd (handleMempoolMessage (exampleDecoder OrderSELL) 5 exampleService
        (exampleMsg (Some ''0xbb''))))
     = [(7, Fin 2, 50, SELL), (8, Fin 2, 50, SELL)]"
proof -
  let ?tx = "\<lparr>tx_to = Some ''0xE'', tx_input = Some ''0x2ff'', tx_hash = Some ''0xbb''\<rparr>"
  have f: "findTargetOrder \<lparr>takerOrder = exampleOrder sd, makerOrders = []\<rparr> ''0xabc'' = exampleOrder sd"
    for sd by (simp add: findTargetOrder_def exampleOrder_def)
  have n: "\<not> (truthy (tx_hash ?tx) \<and> setHas (the (tx_hash ?tx)) (seenTxHashes exampleService))"
    by (simp add: exampleService_def setHas_def)
  have s: "o_side (exampleOrder sd) = sd" for sd by (simp add: exampleOrder_def)
  have th: "tradeHandlers exampleService = [7, 8]" by (simp add: exampleService_def)
  note b = mempool_price_size_rule
    [where dec = "exampleDecoder OrderBUY" and s = exampleService
       and data = "exampleMsg (Some ''0xbb'')" and tx = ?tx
       and decoded = "\<lparr>takerOrder = exampleOrder OrderBUY, makerOrders = []\<rparr>"
       and trader = "''0xabc''" and ord = "exampleOrder OrderBUY" and nowMs = 5]
  note l = mempool_price_size_rule
    [where dec = "exampleDecoder OrderSELL" and s = exampleService
       and data = "exampleMsg (Some ''0xbb'')" and tx = ?tx
       and decoded = "\<lparr>takerOrder = exampleOrder OrderSELL, makerOrders = []\<rparr>"
       and trader = "''0xabc''" and ord = "exampleOrder OrderSELL" and nowMs = 5]
  have hb: "map fst (snd (handleMempoolMessage (exampleDecoder OrderBUY) 5 exampleService
        (exampleMsg (Some ''0xbb'')))) = [7, 8]
     \<and> (\<forall>c \<in> set (snd (handleMempoolMessage (exampleDecoder OrderBUY) 5 exampleService
        (exampleMsg (Some ''0xbb'')))). price (snd c) = Fin 0.5 \<and> tradeSize (snd c) = 100 \<and> side (snd c) = BUY)"
    using b n by (auto simp add: ex_candidate f s th)
  have hl: "map fst (snd (handleMempoolMessage (exampleDecoder OrderSELL) 5 exampleService
        (exampleMsg (Some ''0xbb'')))) = [7, 8]
     \<and> (\<forall>c \<in> set (snd (handleMempoolMessage (exampleDecoder OrderSELL) 5 exampleService
        (exampleMsg (Some ''0xbb'')))). price (snd c) = Fin 2 \<and> tradeSize (snd c) = 50 \<and> side (snd c) = SELL)"
    using l n by (auto simp add: ex_candidate f s th)
  have gen: "map fst cs = [7, 8] \<Longrightarrow> \<forall>c \<in> set cs. price (snd c) = p \<and> tradeSize (snd c) = z \<and> side (snd c) = sd
    \<Longrightarrow> map (\<lambda>c. (fst c, price (snd c), tradeSize (snd c), side (snd c))) cs = [(7, p, z, sd), (8, p, z, sd)]"
    for cs :: "HandlerCall list" and p z sd
    by (cases cs; cases "tl cs") auto
  show ?thesis
    using gen [OF conjunct1 [OF hb] conjunct2 [OF hb]] gen [OF conjunct1 [OF hl] conjunct2 [OF hl]]
    by simp
qed

section \<open>Properties of the subscriptions\<close>

text \<open>
  Claim C9. When an \<open>unsubscribe\<close> leaves no registered handler, the polling timer is
  cleared, the mempool socket is closed, and the target wallets, the mempool target
  addresses and the dedup window are emptied. While another handler stays registered,
  \<open>unsubscribe\<close> only removes its own handler: timer, socket, tracked addresses and
  window stay as they were.
\<close>

theorem last_unsubscribe_tears_down:
  "(set (tradeHandlers s) \<subseteq> {h} \<longrightarrow>
      fst (unsubscribe h s)
        = s\<lparr>tradeHandlers := [], pollIntervalId := None, mempoolWs := None, targetWallets := [],
             mempoolTargetAddresses := [], seenTxHashes := []\<rparr>
      \<and> snd (unsubscribe h s)
        = (case pollIntervalId s of None \<Rightarrow> [] | Some t \<Rightarrow> [ClearInterval t])
          @ (case mempoolWs s of None \<Rightarrow> [] | Some ws \<Rightarrow> [CloseSocket ws]))
   \<and> (\<not> set (tradeHandlers s) \<subseteq> {h} \<longrightarrow>
      unsubscribe h s = (s\<lparr>tradeHandlers := removeAll h (tradeHandlers s)\<rparr>, []))"
proof (intro conjI impI)
  assume a: "set (tradeHandlers s) \<subseteq> {h}"
  then have e: "removeAll h (tradeHandlers s) = []"
    by (induction "tradeHandlers s") (auto simp: removeAll_filter_not_eq filter_empty_conv)
  show "fst (unsubscribe h s)
        = s\<lparr>tradeHandlers := [], pollIntervalId := None, mempoolWs := None, targetWallets := [],
             mempoolTargetAddresses := [], seenTxHashes := []\<rparr>"
    using e
    by (cases s)
       (simp add: unsubscribe_def setDelete_def stopPolling_def stopMempoolMonitor_def Let_def
          split: option.splits)
  show "snd (unsubscribe h s)
        = (case pollIntervalId s of None \<Rightarrow> [] | Some t \<Rightarrow> [ClearInterval t])
          @ (case mempoolWs s of None \<Rightarrow> [] | Some ws \<Rightarrow> [CloseSocket ws])"
    by (simp add: unsubscribe_def setDelete_def e stopPolling_def stopMempoolMonitor_def Let_def
          split: option.splits)
next
  assume "\<not> set (tradeHandlers s) \<subseteq> {h}"
  then have "set (removeAll h (tradeHandlers s)) \<noteq> {}" by auto
  then have "removeAll h (tradeHandlers s) \<noteq> []" by (simp only: set_empty not_False_eq_True)
  then show "unsubscribe h s = (s\<lparr>tradeHandlers := removeAll h (tradeHandlers s)\<rparr>, [])"
    by (simp add: unsubscribe_def setDelete_def Let_def)
qed

theorem last_unsubscribe_tears_down_witness:
  "unsubscribe 7 (exampleService\<lparr>tradeHandlers := [7]\<rparr>)
     = (exampleService\<lparr>tradeHandlers := [], pollIntervalId := None, mempoolWs := None,
          targetWallets := [], mempoolTargetAddresses := [], seenTxHashes := []\<rparr>,
        [ClearInterval 1, CloseSocket 2])
   \<and> unsubscribe 7 exampleService = (exampleService\<lparr>tradeHandlers := [8]\<rparr>, [])"
  using last_unsubscribe_tears_down [of "exampleService\<lparr>tradeHandlers := [7]\<rparr>" 7]
    last_unsubscribe_tears_down [of exampleService 7]
  by (simp add: exampleService_def prod_eq_iff)

section \<open>Properties of the polling detector\<close>

lemma mset_fetchOne:
  "mset (fetchOne getActivity start w)
   = (case getActivity w start of Failed \<Rightarrow> {#} | Fetched as \<Rightarrow> mset as)"
  by (simp add: fetchOne_def split: Response.splits)

lemma sorted_desc:
  "sorted_wrt (\<lambda>a b. a_timestamp b \<le> a_timestamp a) (sort_key (\<lambda>a. - a_timestamp a) xs)"
proof -
  have "sorted (map (\<lambda>a. - a_timestamp a) (sort_key (\<lambda>a. - a_timestamp a) xs))"
    by (rule sorted_sort_key)
  then show ?thesis by (simp add: sorted_map)
qed

text \<open>
  Claim C7, as amended. A polling tick with at least one tracked address issues one request
  per tracked address, all from the previous since-timestamp; a failed request counts as
  an empty answer and the activities of the other answers are all returned, sorted by
  timestamp descending; the since-timestamp becomes \<open>max(previous, now - 10)\<close> and never
  moves back. When the previous since-timestamp is at most \<open>now - 10\<close>, every request of
  the tick reaches back at least 10 seconds and the new since-timestamp is \<open>now - 10\<close>,
  so the same holds at every later tick of a clock that does not go back. A tick with no
  tracked address issues no request and leaves the since-timestamp as it was.
\<close>

theorem poll_tick_fanout_and_overlap:
  assumes "pollTargetWallets getActivity now s = (s', reqs, acts)"
  shows "(targetWallets s \<noteq> [] \<longrightarrow>
            reqs = map (\<lambda>w. (w, lastCheckTimestamp s)) (targetWallets s)
          \<and> mset acts = (\<Sum>w\<leftarrow>targetWallets s.
                case getActivity w (lastCheckTimestamp s) of
                  Failed \<Rightarrow> {#} | Fetched as \<Rightarrow> mset as)
          \<and> sorted_wrt (\<lambda>a b. a_timestamp b \<le> a_timestamp a) acts
          \<and> s' = s\<lparr>lastCheckTimestamp := max (lastCheckTimestamp s) (now - 10)\<rparr>
          \<and> lastCheckTimestamp s \<le> lastCheckTimestamp s'
          \<and> (lastCheckTimestamp s \<le> now - 10 \<longrightarrow>
                (\<forall>r \<in> set reqs. snd r \<le> now - 10) \<and> lastCheckTimestamp s' = now - 10))
       \<and> (targetWallets s = [] \<longrightarrow> s' = s \<and> reqs = [] \<and> acts = [])"
proof (intro conjI impI)
  assume "targetWallets s = []"
  then show "s' = s" and "reqs = []" and "acts = []"
    using assms by (simp_all add: pollTargetWallets_def)
next
  assume ne: "targetWallets s \<noteq> []"
  then have r: "reqs = map (\<lambda>w. (w, lastCheckTimestamp s)) (targetWallets s)"
    and a: "acts = sort_key (\<lambda>a. - a_timestamp a)
                    (concat (map (fetchOne getActivity (lastCheckTimestamp s)) (targetWallets s)))"
    and s': "s' = s\<lparr>lastCheckTimestamp := max (lastCheckTimestamp s) (now - 10)\<rparr>"
    using assms by (simp_all add: pollTargetWallets_def Let_def OVERLAP_SECONDS_def)
  show "reqs = map (\<lambda>w. (w, lastCheckTimestamp s)) (targetWallets s)" by (rule r)
  show "s' = s\<lparr>lastCheckTimestamp := max (lastCheckTimestamp s) (now - 10)\<rparr>" by (rule s')
  show "sorted_wrt (\<lambda>a b. a_timestamp b \<le> a_timestamp a) acts"
    unfolding a by (rule sorted_desc)
  show "lastCheckTimestamp s \<le> lastCheckTimestamp s'" by (simp add: s')
  have "mset acts = mset (concat (map (fetchOne getActivity (lastCheckTimestamp s)) (targetWallets s)))"
    by (simp add: a)
  also have "\<dots> = (\<Sum>w\<leftarrow>targetWallets s. mset (fetchOne getActivity (lastCheckTimestamp s) w))"
    by (simp add: mset_concat comp_def)
  finally show "mset acts = (\<Sum>w\<leftarrow>targetWallets s.
                case getActivity w (lastCheckTimestamp s) of
                  Failed \<Rightarrow> {#} | Fetched as \<Rightarrow> mset as)"
    by (simp add: mset_fetchOne)
  {
    assume "lastCheckTimestamp s \<le> now - 10"
    then show "\<forall>r \<in> set reqs. snd r \<le> now - 10" and "lastCheckTimestamp s' = now - 10"
      by (auto simp: r s')
  }
qed

theorem poll_tick_fanout_and_overlap_witness:
  "pollTargetWallets exampleGetActivity 120 (exampleService\<lparr>targetWallets := [''0xdead'', ''0xabc'']\<rparr>)
     = (exampleService\<lparr>targetWallets := [''0xdead'', ''0xabc''], lastCheckTimestamp := 110\<rparr>,
        [(''0xdead'', 100), (''0xabc'', 100)],
        [exampleActivity ''0xcc'' 103, exampleActivity ''0xbb'' 101])
   \<and> mset [exampleActivity ''0xcc'' 103, exampleActivity ''0xbb'' 101]
       = {#exampleActivity ''0xbb'' 101, exampleActivity ''0xcc'' 103#}
   \<and> pollTargetWallets exampleGetActivity 120 (exampleService\<lparr>targetWallets := []\<rparr>)
     = (exampleService\<lparr>targetWallets := []\<rparr>, [], [])"
proof -
  let ?s = "exampleService\<lparr>targetWallets := [''0xdead'', ''0xabc'']\<rparr>"
  have 1: "pollTargetWallets exampleGetActivity 120 ?s
     = (?s\<lparr>lastCheckTimestamp := 110\<rparr>,
        [(''0xdead'', 100), (''0xabc'', 100)],
        [exampleActivity ''0xcc'' 103, exampleActivity ''0xbb'' 101])"
    by (simp add: pollTargetWallets_def exampleService_def exampleGetActivity_def fetchOne_def
          OVERLAP_SECONDS_def exampleActivity_def)
  have 2: "pollTargetWallets exampleGetActivity 120 (exampleService\<lparr>targetWallets := []\<rparr>)
     = (exampleService\<lparr>targetWallets := []\<rparr>, [], [])"
    by (simp add: pollTargetWallets_def)
  show ?thesis
    using poll_tick_fanout_and_overlap [OF 1] poll_tick_fanout_and_overlap [OF 2] 1 2
    by (simp add: exampleService_def exampleGetActivity_def)
qed

text \<open>
  The claim as stated fails: a tick 5 seconds after the since-timestamp was set queries
  5 seconds only and leaves the since-timestamp where it was, so that the next tick queries
  5 seconds of this tick's range again; and a tick with no tracked address does not advance
  the since-timestamp.
\<close>

theorem poll_tick_overlap_counterexample:
  "map snd (fst (snd (pollTargetWallets exampleGetActivity 105 exampleService))) = [100]
   \<and> \<not> (100 \<le> 105 - OVERLAP_SECONDS)
   \<and> lastCheckTimestamp (fst (pollTargetWallets exampleGetActivity 105 exampleService)) = 100
   \<and> lastCheckTimestamp (fst (pollTargetWallets exampleGetActivity 200
        (exampleService\<lparr>targetWallets := []\<rparr>))) = 100
   \<and> max (lastCheckTimestamp (exampleService\<lparr>targetWallets := []\<rparr>)) (200 - OVERLAP_SECONDS) = 190"
  by (simp add: pollTargetWallets_def exampleService_def OVERLAP_SECONDS_def Let_def)

section \<open>Properties of the copy-trade executor\<close>

declare reduceSplitCount.simps [simp del]
declare executeLoop.simps [simp del]

lemma clamp_bounds: "lo \<le> hi \<Longrightarrow> lo \<le> clamp v lo hi \<and> clamp v lo hi \<le> hi"
  by (simp add: clamp_def)

lemma roundToTick_near: "\<bar>roundToTick x - x\<bar> \<le> 1 / 200"
proof -
  define k where "k = real_of_int \<lfloor>x * 100 + 1 / 2\<rfloor>"
  have 1: "k \<le> x * 100 + 1 / 2" unfolding k_def by (rule of_int_floor_le)
  have 2: "x * 100 + 1 / 2 < k + 1" unfolding k_def by linarith
  have r: "roundToTick x = k / 100" by (simp add: roundToTick_def k_def)
  have "k / 100 - x \<le> 1 / 200" using 1 by linarith
  moreover have "x - k / 100 \<le> 1 / 200" using 2 by linarith
  ultimately show ?thesis unfolding r by linarith
qed

lemma roundToTick_tick: "\<exists>k::int. roundToTick x = real_of_int k / 100"
  by (auto simp: roundToTick_def)

lemma roundToTick_range:
  assumes "1 / 100 \<le> x" "x \<le> 99 / 100"
  shows "1 / 100 \<le> roundToTick x \<and> roundToTick x \<le> 99 / 100"
proof -
  have "1 \<le> \<lfloor>x * 100 + 1 / 2\<rfloor>" using assms(1) by linarith
  moreover have "\<lfloor>x * 100 + 1 / 2\<rfloor> \<le> 99" using assms(2) by linarith
  ultimately show ?thesis by (simp add: roundToTick_def field_simps)
qed

lemma tick_price_range:
  "1 / 100 \<le> roundToTick (clamp v 0.01 0.99) \<and> roundToTick (clamp v 0.01 0.99) \<le> 99 / 100"
  by (rule roundToTick_range) (simp_all add: clamp_def)

lemma attempt_market:
  "orderMode opts \<noteq> Limit \<Longrightarrow>
   fst (attemptOrder opts ts trade tok cs usdc n)
     = [CreateMarketOrder tok (side trade) usdc (slippagePrice opts trade) (marketOrderType opts)]"
  by (simp add: attemptOrder_def Let_def split: Call.splits)

lemma attempt_limit_direct:
  "orderMode opts = Limit \<Longrightarrow> \<not> (orderManager opts \<noteq> None \<and> splitCount opts = 1) \<Longrightarrow>
   \<not> splitCount opts > 1 \<Longrightarrow>
   fst (attemptOrder opts ts trade tok cs usdc n)
     = [CreateLimitOrder tok (side trade)
          (calculateLimitPrice (side trade) (price trade) (limitPriceOffset opts)) cs
          (limitOrderType opts)]"
  by (auto simp add: attemptOrder_def Let_def split: Call.splits)

lemma attempt_limit_manager:
  "orderMode opts = Limit \<Longrightarrow> orderManager opts \<noteq> None \<Longrightarrow> splitCount opts = 1 \<Longrightarrow>
   take 1 (fst (attemptOrder opts ts trade tok cs usdc n))
     = [PlaceOrder tok (side trade)
          (calculateLimitPrice (side trade) (price trade) (limitPriceOffset opts)) cs
          (limitOrderType opts)]"
  by (auto simp add: attemptOrder_def Let_def split: Call.splits option.splits)

text \<open>
  Claim C6. A market order is placed at \<open>detectedPrice * (1 + maxSlippage)\<close> for BUY and
  \<open>detectedPrice * (1 - maxSlippage)\<close> for SELL. A single limit order, placed directly or
  through the order manager, is placed at \<open>detectedPrice + limitPriceOffset\<close> for BUY and
  \<open>detectedPrice - limitPriceOffset\<close> for SELL, clamped to \<open>[0.01, 0.99]\<close> and then
  rounded to the tick: the result is a whole number of cents within half a cent of the
  clamped price and stays in \<open>[0.01, 0.99]\<close>. A BUY at 0.995 with offset 0.01 gives 0.99.
\<close>

theorem execution_price_rule:
  "(orderMode opts \<noteq> Limit \<longrightarrow>
      fst (attemptOrder opts ts trade tok cs usdc n)
        = [CreateMarketOrder tok (side trade) usdc
             (if side trade = BUY then price trade * (1 + maxSlippage opts)
              else price trade * (1 - maxSlippage opts))
             (marketOrderType opts)])
   \<and> (orderMode opts = Limit \<and> \<not> (orderManager opts \<noteq> None \<and> splitCount opts = 1)
        \<and> \<not> splitCount opts > 1 \<longrightarrow>
      fst (attemptOrder opts ts trade tok cs usdc n)
        = [CreateLimitOrder tok (side trade)
             (calculateLimitPrice (side trade) (price trade) (limitPriceOffset opts)) cs
             (limitOrderType opts)])
   \<and> (orderMode opts = Limit \<and> orderManager opts \<noteq> None \<and> splitCount opts = 1 \<longrightarrow>
      take 1 (fst (attemptOrder opts ts trade tok cs usdc n))
        = [PlaceOrder tok (side trade)
             (calculateLimitPrice (side trade) (price trade) (limitPriceOffset opts)) cs
             (limitOrderType opts)])
   \<and> calculateLimitPrice BUY p off = roundToTick (max 0.01 (min 0.99 (p + off)))
   \<and> calculateLimitPrice SELL p off = roundToTick (max 0.01 (min 0.99 (p - off)))
   \<and> \<bar>roundToTick x - x\<bar> \<le> 0.005
   \<and> (\<exists>k::int. roundToTick x = real_of_int k * 0.01)
   \<and> 0.01 \<le> calculateLimitPrice sd p off \<and> calculateLimitPrice sd p off \<le> 0.99
   \<and> calculateLimitPrice BUY 0.995 0.01 = 0.99"
proof (intro conjI impI)
  assume "orderMode opts \<noteq> Limit"
  then show "fst (attemptOrder opts ts trade tok cs usdc n)
        = [CreateMarketOrder tok (side trade) usdc
             (if side trade = BUY then price trade * (1 + maxSlippage opts)
              else price trade * (1 - maxSlippage opts))
             (marketOrderType opts)]"
    by (simp add: attempt_market slippagePrice_def)
next
  assume "orderMode opts = Limit \<and> \<not> (orderManager opts \<noteq> None \<and> splitCount opts = 1)
        \<and> \<not> splitCount opts > 1"
  then show "fst (attemptOrder opts ts trade tok cs usdc n)
        = [CreateLimitOrder tok (side trade)
             (calculateLimitPrice (side trade) (price trade) (limitPriceOffset opts)) cs
             (limitOrderType opts)]"
    using attempt_limit_direct [of opts ts trade tok cs usdc n] by blast
next
  assume "orderMode opts = Limit \<and> orderManager opts \<noteq> None \<and> splitCount opts = 1"
  then show "take 1 (fst (attemptOrder opts ts trade tok cs usdc n))
        = [PlaceOrder tok (side trade)
             (calculateLimitPrice (side trade) (price trade) (limitPriceOffset opts)) cs
             (limitOrderType opts)]"
    using attempt_limit_manager [of opts ts trade tok cs usdc n] by blast
next
  show "calculateLimitPrice BUY p off = roundToTick (max 0.01 (min 0.99 (p + off)))"
    by (simp add: calculateLimitPrice_def clamp_def)
  show "calculateLimitPrice SELL p off = roundToTick (max 0.01 (min 0.99 (p - off)))"
    by (simp add: calculateLimitPrice_def clamp_def)
  show "\<bar>roundToTick x - x\<bar> \<le> 0.005" using roundToTick_near [of x] by simp
  show "\<exists>k::int. roundToTick x = real_of_int k * 0.01"
    using roundToTick_tick [of x] by (simp add: field_simps)
  show "0.01 \<le> calculateLimitPrice sd p off"
    using tick_price_range [of "if sd = BUY then p + off else p - off"]
    by (simp add: calculateLimitPrice_def)
  show "calculateLimitPrice sd p off \<le> 0.99"
    using tick_price_range [of "if sd = BUY then p + off else p - off"]
    by (simp add: calculateLimitPrice_def)
  show "calculateLimitPrice BUY 0.995 0.01 = 0.99"
    by (simp add: calculateLimitPrice_def clamp_def roundToTick_def)
qed

theorem execution_price_rule_witness:
  "fst (attemptOrder exampleOptions exampleTrading exampleTrade ''tok'' (250 / 3) 50 0)
     = [CreateMarketOrder ''tok'' BUY 50 (0.6 * (1 + 0.03)) FOK]
   \<and> fst (attemptOrder (exampleOptions\<lparr>orderMode := Limit\<rparr>) exampleTrading exampleTrade
            ''tok'' (250 / 3) 50 0)
     = [CreateLimitOrder ''tok'' BUY 0.61 (250 / 3) GTC]
   \<and> take 1 (fst (attemptOrder
            (exampleOptions\<lparr>orderMode := Limit, orderManager := Some (Returns ''h1'')\<rparr>)
            exampleTrading exampleTrade ''tok'' (250 / 3) 50 0))
     = [PlaceOrder ''tok'' BUY 0.61 (250 / 3) GTC]"
proof -
  let ?limit = "exampleOptions\<lparr>orderMode := Limit\<rparr>"
  let ?managed = "exampleOptions\<lparr>orderMode := Limit, orderManager := Some (Returns ''h1'')\<rparr>"
  have lp: "calculateLimitPrice BUY 0.6 0.01 = 0.61"
    by (simp add: calculateLimitPrice_def clamp_def roundToTick_def)
  have m: "orderMode exampleOptions \<noteq> Limit" by (simp add: exampleOptions_def)
  have l: "orderMode ?limit = Limit \<and> \<not> (orderManager ?limit \<noteq> None \<and> splitCount ?limit = 1)
             \<and> \<not> splitCount ?limit > 1"
    by (simp add: exampleOptions_def)
  have g: "orderMode ?managed = Limit \<and> orderManager ?managed \<noteq> None \<and> splitCount ?managed = 1"
    by (simp add: exampleOptions_def)
  have 1: "fst (attemptOrder exampleOptions exampleTrading exampleTrade ''tok'' (250 / 3) 50 0)
        = [CreateMarketOrder ''tok'' (side exampleTrade) 50
             (if side exampleTrade = BUY then price exampleTrade * (1 + maxSlippage exampleOptions)
              else price exampleTrade * (1 - maxSlippage exampleOptions))
             (marketOrderType exampleOptions)]"
    using execution_price_rule
        [where opts = exampleOptions and ts = exampleTrading and trade = exampleTrade
           and tok = "''tok''" and cs = "250 / 3" and usdc = 50 and n = 0
           and p = 0 and off = 0 and x = 0 and sd = BUY] m
    by blast
  have 2: "fst (attemptOrder ?limit exampleTrading exampleTrade ''tok'' (250 / 3) 50 0)
        = [CreateLimitOrder ''tok'' (side exampleTrade)
             (calculateLimitPrice (side exampleTrade) (price exampleTrade) (limitPriceOffset ?limit))
             (250 / 3) (limitOrderType ?limit)]"
    using execution_price_rule
        [where opts = ?limit and ts = exampleTrading and trade = exampleTrade
           and tok = "''tok''" and cs = "250 / 3" and usdc = 50 and n = 0
           and p = 0 and off = 0 and x = 0 and sd = BUY] l
    by blast
  have 3: "take 1 (fst (attemptOrder ?managed exampleTrading exampleTrade ''tok'' (250 / 3) 50 0))
        = [PlaceOrder ''tok'' (side exampleTrade)
             (calculateLimitPrice (side exampleTrade) (price exampleTrade) (limitPriceOffset ?managed))
             (250 / 3) (limitOrderType ?managed)]"
    using execution_price_rule
        [where opts = ?managed and ts = exampleTrading and trade = exampleTrade
           and tok = "''tok''" and cs = "250 / 3" and usdc = 50 and n = 0
           and p = 0 and off = 0 and x = 0 and sd = BUY] g
    by blast
  have v: "side exampleTrade = BUY" "price exampleTrade = 0.6" "maxSlippage exampleOptions = 0.03"
    "marketOrderType exampleOptions = FOK" "limitPriceOffset ?limit = 0.01"
    "limitOrderType ?limit = GTC" "limitPriceOffset ?managed = 0.01" "limitOrderType ?managed = GTC"
    by (simp_all add: exampleTrade_def exampleOptions_def marketOrderType_def limitOrderType_def)
  show ?thesis using 1 2 3 by (simp only: v lp if_True) simp
qed

lemma reduce_step:
  "n > 1 \<and> real_of_int \<lfloor>t / real_of_int n\<rfloor> < MIN_SHARES \<Longrightarrow>
     reduceSplitCount t n = reduceSplitCount t (n - 1)"
  by (subst reduceSplitCount.simps) simp

lemma reduce_done:
  "\<not> (n > 1 \<and> real_of_int \<lfloor>t / real_of_int n\<rfloor> < MIN_SHARES) \<Longrightarrow>
     reduceSplitCount t n = n"
  by (subst reduceSplitCount.simps) auto

lemma reduce_le: "reduceSplitCount t n \<le> n"
proof (induction t n rule: reduceSplitCount.induct)
  case (1 t n)
  show ?case
  proof (cases "n > 1 \<and> real_of_int \<lfloor>t / real_of_int n\<rfloor> < MIN_SHARES")
    case True
    then have "reduceSplitCount t n = reduceSplitCount t (n - 1)"
      by (rule reduce_step)
    then show ?thesis using "1.IH" [OF True] by simp
  next
    case False
    then show ?thesis by (simp add: reduce_done)
  qed
qed

lemma reduce_ge_1: "1 \<le> n \<Longrightarrow> 1 \<le> reduceSplitCount t n"
proof (induction t n rule: reduceSplitCount.induct)
  case (1 t n)
  show ?case
  proof (cases "n > 1 \<and> real_of_int \<lfloor>t / real_of_int n\<rfloor> < MIN_SHARES")
    case True
    then have "reduceSplitCount t n = reduceSplitCount t (n - 1)"
      by (rule reduce_step)
    then show ?thesis using "1.IH" [OF True] True by simp
  next
    case False
    then show ?thesis using "1.prems" by (simp add: reduce_done)
  qed
qed

lemma reduce_skipped:
  "reduceSplitCount t n < k \<Longrightarrow> k \<le> n \<Longrightarrow> real_of_int \<lfloor>t / real_of_int k\<rfloor> < MIN_SHARES"
proof (induction t n rule: reduceSplitCount.induct)
  case (1 t n)
  show ?case
  proof (cases "n > 1 \<and> real_of_int \<lfloor>t / real_of_int n\<rfloor> < MIN_SHARES")
    case True
    then have eq: "reduceSplitCount t n = reduceSplitCount t (n - 1)"
      by (rule reduce_step)
    show ?thesis
    proof (cases "k = n")
      case True
      then show ?thesis using \<open>n > 1 \<and> real_of_int \<lfloor>t / real_of_int n\<rfloor> < MIN_SHARES\<close> by simp
    next
      case False
      then have "k \<le> n - 1" using "1.prems"(2) by simp
      moreover have "reduceSplitCount t (n - 1) < k" using "1.prems"(1) eq by simp
      ultimately show ?thesis using "1.IH" [OF True] by simp
    qed
  next
    case False
    then have "reduceSplitCount t n = n" by (rule reduce_done)
    then show ?thesis using "1.prems" by simp
  qed
qed

lemma reduce_stop:
  "1 < reduceSplitCount t n \<Longrightarrow>
     MIN_SHARES \<le> real_of_int \<lfloor>t / real_of_int (reduceSplitCount t n)\<rfloor>"
proof (induction t n rule: reduceSplitCount.induct)
  case (1 t n)
  show ?case
  proof (cases "n > 1 \<and> real_of_int \<lfloor>t / real_of_int n\<rfloor> < MIN_SHARES")
    case True
    then have eq: "reduceSplitCount t n = reduceSplitCount t (n - 1)"
      by (rule reduce_step)
    then show ?thesis using "1.IH" [OF True] "1.prems" by simp
  next
    case False
    then have eq: "reduceSplitCount t n = n" by (rule reduce_done)
    then show ?thesis using False "1.prems" by simp
  qed
qed

lemma floor_div_small:
  assumes "t < 5" "1 \<le> k"
  shows "real_of_int \<lfloor>t / real_of_int k\<rfloor> < 5"
proof -
  have k: "1 \<le> real_of_int k" using assms(2) by simp
  have "t / real_of_int k < 5"
  proof (cases "0 \<le> t")
    case True
    then have "t / real_of_int k \<le> t / 1" using k by (intro divide_left_mono) simp_all
    then show ?thesis using assms(1) by simp
  next
    case False
    then have "t / real_of_int k \<le> 0" using k by (simp add: divide_le_0_iff)
    then show ?thesis by simp
  qed
  moreover have "real_of_int \<lfloor>t / real_of_int k\<rfloor> \<le> t / real_of_int k" by (rule of_int_floor_le)
  ultimately show ?thesis by linarith
qed

lemma reduce_small:
  assumes "t < 5" "1 \<le> n"
  shows "reduceSplitCount t n = 1"
proof (rule ccontr)
  assume "reduceSplitCount t n \<noteq> 1"
  then have gt: "1 < reduceSplitCount t n" using reduce_ge_1 [OF assms(2), of t] by simp
  then have "MIN_SHARES \<le> real_of_int \<lfloor>t / real_of_int (reduceSplitCount t n)\<rfloor>"
    by (rule reduce_stop)
  moreover have "real_of_int \<lfloor>t / real_of_int (reduceSplitCount t n)\<rfloor> < 5"
    using assms(1) gt by (intro floor_div_small) simp_all
  ultimately show False by (simp add: MIN_SHARES_def)
qed

lemma reduce_enough:
  assumes "5 \<le> t" "1 \<le> n"
  shows "MIN_SHARES \<le> real_of_int \<lfloor>t / real_of_int (reduceSplitCount t n)\<rfloor>"
proof (cases "1 < reduceSplitCount t n")
  case True
  then show ?thesis by (rule reduce_stop)
next
  case False
  then have "reduceSplitCount t n = 1" using reduce_ge_1 [OF assms(2), of t] by simp
  moreover have "(5::int) \<le> \<lfloor>t\<rfloor>" using assms(1) by linarith
  ultimately show ?thesis by (simp add: MIN_SHARES_def)
qed

lemma floor_mult_le:
  assumes "1 \<le> r"
  shows "real_of_int r * real_of_int \<lfloor>t / real_of_int r\<rfloor> \<le> t"
proof -
  have pos: "0 < real_of_int r" using assms by simp
  have "real_of_int \<lfloor>t / real_of_int r\<rfloor> \<le> t / real_of_int r" by (rule of_int_floor_le)
  then have "real_of_int r * real_of_int \<lfloor>t / real_of_int r\<rfloor> \<le> real_of_int r * (t / real_of_int r)"
    using pos by (simp only: mult_le_cancel_left_pos)
  then show ?thesis using pos by simp
qed

lemma floorDiv_pos: "1 \<le> r \<Longrightarrow> floorDiv t r = Fin (real_of_int \<lfloor>t / real_of_int r\<rfloor>)"
  by (simp add: floorDiv_def jsdiv_def)

lemma split_ok:
  assumes "1 \<le> n" "n \<le> 15" "5 \<le> t" "r = reduceSplitCount t n"
  shows "createSplitOrders tok sd base t n spread off ot
         = Inr (map (splitOrder tok sd (calculateLimitPrice sd base off) spread
                       (Fin (real_of_int \<lfloor>t / real_of_int r\<rfloor>)) ot) [0 ..< nat r])"
proof -
  have r1: "1 \<le> r" using assms(1,4) by (simp add: reduce_ge_1)
  have "MIN_SHARES \<le> real_of_int \<lfloor>t / real_of_int r\<rfloor>"
    using reduce_enough [OF assms(3) assms(1)] assms(4) by simp
  then show ?thesis
    using assms(2,4) r1 by (simp add: createSplitOrders_def Let_def floorDiv_pos jsLess_def)
qed

lemma split_too_small:
  assumes "1 \<le> n" "n \<le> 15" "t < 5"
  shows "createSplitOrders tok sd base t n spread off ot
         = Inl (SplitSizeBelowMinimum (Fin (real_of_int \<lfloor>t\<rfloor>)) 1)"
proof -
  have r: "reduceSplitCount t n = 1" using assms(3,1) by (rule reduce_small)
  have "real_of_int \<lfloor>t\<rfloor> < 5" using assms(3) by linarith
  then show ?thesis
    using assms(2) r
    by (simp add: createSplitOrders_def Let_def floorDiv_def jsdiv_def jsLess_def MIN_SHARES_def)
qed

text \<open>
  Claim C4. A requested split count above 15 is a configuration error. For a requested
  count from 1 to 15, the effective count is the requested count lowered, never raised,
  until \<open>floor(totalSize / count)\<close> is at least 5 or the count is 1; the planner raises a
  configuration error when even one child cannot hold 5 shares, and otherwise returns as
  many children as the effective count, each of size \<open>floor(totalSize / count)\<close>, child
  \<open>i\<close> priced at the base limit price plus \<open>i * splitSpread\<close> for BUY or minus it for
  SELL, clamped to \<open>[0.01, 0.99]\<close> and rounded to the tick. The sizes sum to at most
  the total size; total size 12 with 5 requested gives the effective count 2.
\<close>

theorem split_planner_rule:
  "(15 < n \<longrightarrow> createSplitOrders tok sd base t n spread off ot = Inl (SplitCountExceeds n))
   \<and> (1 \<le> n \<and> n \<le> 15 \<and> r = reduceSplitCount t n \<longrightarrow>
        1 \<le> r \<and> r \<le> n
      \<and> (\<forall>k. r < k \<and> k \<le> n \<longrightarrow> \<lfloor>t / real_of_int k\<rfloor> < 5)
      \<and> (1 < r \<longrightarrow> 5 \<le> \<lfloor>t / real_of_int r\<rfloor>)
      \<and> (\<lfloor>t\<rfloor> < 5 \<longrightarrow>
            createSplitOrders tok sd base t n spread off ot
              = Inl (SplitSizeBelowMinimum (Fin (real_of_int \<lfloor>t\<rfloor>)) 1))
      \<and> (5 \<le> \<lfloor>t\<rfloor> \<longrightarrow>
            (\<exists>orders. createSplitOrders tok sd base t n spread off ot = Inr orders
               \<and> length orders = nat r
               \<and> map so_size orders = replicate (nat r) (Fin (real_of_int \<lfloor>t / real_of_int r\<rfloor>))
               \<and> 5 \<le> \<lfloor>t / real_of_int r\<rfloor>
               \<and> real_of_int r * real_of_int \<lfloor>t / real_of_int r\<rfloor> \<le> t
               \<and> (\<forall>i < nat r.
                     so_price (orders ! i)
                       = roundToTick (max 0.01 (min 0.99
                           (calculateLimitPrice sd base off
                              + (if sd = BUY then real i * spread else - real i * spread))))
                     \<and> 0.01 \<le> so_price (orders ! i) \<and> so_price (orders ! i) \<le> 0.99))))
   \<and> reduceSplitCount 12 5 = 2"
proof (intro conjI impI allI)
  assume "15 < n"
  then show "createSplitOrders tok sd base t n spread off ot = Inl (SplitCountExceeds n)"
    by (simp add: createSplitOrders_def)
next
  assume a: "1 \<le> n \<and> n \<le> 15 \<and> r = reduceSplitCount t n"
  then show "1 \<le> r" by (simp add: reduce_ge_1)
  from a show "r \<le> n" by (simp add: reduce_le)
next
  fix k
  assume "1 \<le> n \<and> n \<le> 15 \<and> r = reduceSplitCount t n" and "r < k \<and> k \<le> n"
  then have "real_of_int \<lfloor>t / real_of_int k\<rfloor> < MIN_SHARES"
    using reduce_skipped [of t n k] by simp
  then show "\<lfloor>t / real_of_int k\<rfloor> < 5" by (simp add: MIN_SHARES_def)
next
  assume "1 \<le> n \<and> n \<le> 15 \<and> r = reduceSplitCount t n" and "1 < r"
  then have "MIN_SHARES \<le> real_of_int \<lfloor>t / real_of_int r\<rfloor>"
    using reduce_stop [of t n] by simp
  then show "5 \<le> \<lfloor>t / real_of_int r\<rfloor>" by (simp add: MIN_SHARES_def)
next
  assume a: "1 \<le> n \<and> n \<le> 15 \<and> r = reduceSplitCount t n" and "\<lfloor>t\<rfloor> < 5"
  then have "t < 5" by linarith
  then show "createSplitOrders tok sd base t n spread off ot
              = Inl (SplitSizeBelowMinimum (Fin (real_of_int \<lfloor>t\<rfloor>)) 1)"
    using a by (simp add: split_too_small)
next
  assume a: "1 \<le> n \<and> n \<le> 15 \<and> r = reduceSplitCount t n" and "5 \<le> \<lfloor>t\<rfloor>"
  then have t: "5 \<le> t" by linarith
  have r1: "1 \<le> r" using a by (simp add: reduce_ge_1)
  let ?q = "real_of_int \<lfloor>t / real_of_int r\<rfloor>"
  let ?orders = "map (splitOrder tok sd (calculateLimitPrice sd base off) spread (Fin ?q) ot)
                   [0 ..< nat r]"
  have eq: "createSplitOrders tok sd base t n spread off ot = Inr ?orders"
    using a t by (intro split_ok) simp_all
  have sizes: "map so_size ?orders = replicate (nat r) (Fin ?q)"
    by (simp add: splitOrder_def Let_def comp_def map_replicate_const)
  have len: "length ?orders = nat r" by simp
  have enough: "5 \<le> \<lfloor>t / real_of_int r\<rfloor>"
    using reduce_enough [OF t, of n] a by (simp add: MIN_SHARES_def)
  have total: "real_of_int r * ?q \<le> t" using r1 by (rule floor_mult_le)
  have prices: "\<forall>i < nat r.
       so_price (?orders ! i)
         = roundToTick (max 0.01 (min 0.99
             (calculateLimitPrice sd base off
                + (if sd = BUY then real i * spread else - real i * spread))))
       \<and> 0.01 \<le> so_price (?orders ! i) \<and> so_price (?orders ! i) \<le> 0.99"
  proof (intro allI impI)
    fix i
    assume "i < nat r"
    then have "?orders ! i = splitOrder tok sd (calculateLimitPrice sd base off) spread (Fin ?q) ot i"
      by simp
    then show "so_price (?orders ! i)
         = roundToTick (max 0.01 (min 0.99
             (calculateLimitPrice sd base off
                + (if sd = BUY then real i * spread else - real i * spread))))
       \<and> 0.01 \<le> so_price (?orders ! i) \<and> so_price (?orders ! i) \<le> 0.99"
      using tick_price_range
        [of "calculateLimitPrice sd base off
               + (if sd = BUY then real i * spread else - real i * spread)"]
      by (simp add: splitOrder_def Let_def clamp_def)
  qed
  show "\<exists>orders. createSplitOrders tok sd base t n spread off ot = Inr orders
               \<and> length orders = nat r
               \<and> map so_size orders = replicate (nat r) (Fin (real_of_int \<lfloor>t / real_of_int r\<rfloor>))
               \<and> 5 \<le> \<lfloor>t / real_of_int r\<rfloor>
               \<and> real_of_int r * real_of_int \<lfloor>t / real_of_int r\<rfloor> \<le> t
               \<and> (\<forall>i < nat r.
                     so_price (orders ! i)
                       = roundToTick (max 0.01 (min 0.99
                           (calculateLimitPrice sd base off
                              + (if sd = BUY then real i * spread else - real i * spread))))
                     \<and> 0.01 \<le> so_price (orders ! i) \<and> so_price (orders ! i) \<le> 0.99)"
    by (intro exI [of _ ?orders] conjI eq len sizes enough total prices)
next
  show "reduceSplitCount 12 5 = 2"
    by (simp add: reduceSplitCount.simps MIN_SHARES_def)
qed

theorem split_planner_rule_witness:
  "createSplitOrders ''tok'' BUY 0.6 12 16 0.001 0.01 GTC = Inl (SplitCountExceeds 16)
   \<and> createSplitOrders ''tok'' BUY 0.6 3 2 0.001 0.01 GTC
       = Inl (SplitSizeBelowMinimum (Fin 3) 1)
   \<and> (\<exists>orders. createSplitOrders ''tok'' BUY 0.6 12 5 0.001 0.01 GTC = Inr orders
         \<and> length orders = 2 \<and> map so_size orders = [Fin 6, Fin 6])"
proof -
  have r1: "1 = reduceSplitCount 3 2" by (simp add: reduceSplitCount.simps MIN_SHARES_def)
  have r2: "2 = reduceSplitCount 12 5" by (simp add: reduceSplitCount.simps MIN_SHARES_def)
  note a = split_planner_rule
    [where n = 16 and tok = "''tok''" and sd = BUY and base = "0.6" and t = 12
       and spread = "0.001" and off = "0.01" and ot = GTC and r = 1]
  note b = split_planner_rule
    [where n = 2 and tok = "''tok''" and sd = BUY and base = "0.6" and t = 3
       and spread = "0.001" and off = "0.01" and ot = GTC and r = 1]
  note c = split_planner_rule
    [where n = 5 and tok = "''tok''" and sd = BUY and base = "0.6" and t = 12
       and spread = "0.001" and off = "0.01" and ot = GTC and r = 2]
  have 1: "createSplitOrders ''tok'' BUY 0.6 12 16 0.001 0.01 GTC = Inl (SplitCountExceeds 16)"
    using a by simp
  have 2: "createSplitOrders ''tok'' BUY 0.6 3 2 0.001 0.01 GTC
       = Inl (SplitSizeBelowMinimum (Fin 3) 1)"
    using b r1 by simp
  have "\<exists>orders. createSplitOrders ''tok'' BUY 0.6 12 5 0.001 0.01 GTC = Inr orders
         \<and> length orders = nat 2
         \<and> map so_size orders = replicate (nat 2) (Fin (real_of_int \<lfloor>12 / real_of_int 2\<rfloor>))"
    using c r2 by auto
  then have 3: "\<exists>orders. createSplitOrders ''tok'' BUY 0.6 12 5 0.001 0.01 GTC = Inr orders
         \<and> length orders = 2 \<and> map so_size orders = [Fin 6, Fin 6]"
    by (simp add: numeral_2_eq_2)
  show ?thesis using 1 2 3 by blast
qed

lemma sizeCopy_uncapped:
  assumes "rawSize = max 5 (tradeSize trade * sizeScale opts)"
    "rawSize * price trade \<le> maxSizePerTrade opts" "1 \<le> rawSize * price trade"
  shows "sizeCopy opts trade = Some (rawSize, rawSize * price trade)"
  using assms by (simp add: sizeCopy_def Let_def MIN_SHARES_def MIN_ORDER_SIZE_def)

lemma sizeCopy_capped:
  assumes "rawSize = max 5 (tradeSize trade * sizeScale opts)"
    "rawSize * price trade > maxSizePerTrade opts" "1 \<le> maxSizePerTrade opts"
  shows "sizeCopy opts trade = Some (maxSizePerTrade opts / price trade, maxSizePerTrade opts)
       \<and> price trade \<noteq> 0
       \<and> maxSizePerTrade opts / price trade * price trade = maxSizePerTrade opts"
proof -
  have p: "price trade \<noteq> 0"
  proof
    assume "price trade = 0"
    then have "rawSize * price trade = 0" by simp
    then show False using assms(2,3) by linarith
  qed
  then show ?thesis
    using assms by (simp add: sizeCopy_def Let_def MIN_SHARES_def MIN_ORDER_SIZE_def jsdiv_def)
qed

lemma sizeCopy_below:
  assumes "rawSize = max 5 (tradeSize trade * sizeScale opts)"
    "(if rawSize * price trade > maxSizePerTrade opts then maxSizePerTrade opts
      else rawSize * price trade) < 1"
  shows "sizeCopy opts trade = None"
  using assms(2) unfolding assms(1)
  by (auto simp: sizeCopy_def Let_def MIN_SHARES_def MIN_ORDER_SIZE_def split: if_splits)

lemma sizeCopy_finite:
  assumes "rawSize = max 5 (tradeSize trade * sizeScale opts)"
  shows "sizeCopy opts trade = None \<longleftrightarrow>
     (if rawSize * price trade > maxSizePerTrade opts then maxSizePerTrade opts
      else rawSize * price trade) < 1"
proof (cases "(if rawSize * price trade > maxSizePerTrade opts then maxSizePerTrade opts
      else rawSize * price trade) < 1")
  case True
  then show ?thesis using sizeCopy_below [OF assms] by simp
next
  case False
  show ?thesis
  proof (cases "rawSize * price trade > maxSizePerTrade opts")
    case True
    then have "1 \<le> maxSizePerTrade opts" using False by simp
    then show ?thesis using sizeCopy_capped [OF assms True] False by simp
  next
    case F: False
    then have "1 \<le> rawSize * price trade" using False by simp
    then show ?thesis using sizeCopy_uncapped [OF assms] F False by simp
  qed
qed

lemma copyBody_sizing:
  assumes "reachesSizing opts trade"
  shows "copyBody opts ts trade st =
     (let st1 = (if tradeFilter opts \<noteq> None then logAction [CallTradeFilter] st else st)
      in case sizeCopy opts trade of
           None \<Rightarrow> skipTrade st1
         | Some (copySize, copyValue) \<Rightarrow> afterSizing opts ts trade copySize copyValue st1)"
  using assms
  by (auto simp: reachesSizing_def passesFilters_def copyBody_def Let_def
        split: option.splits prod.splits)

lemma copyHandler_skip:
  assumes "reachesSizing opts trade" "sizeCopy opts trade = None"
  shows "copyHandler opts ts trade stats
         = ((stats\<lparr>tradesDetected := tradesDetected stats + 1,
                    tradesSkipped := tradesSkipped stats + 1\<rparr>,
             if tradeFilter opts = None then [] else [CallTradeFilter]), None)"
  using assms
  by (simp add: copyHandler_def copyBody_sizing Let_def skipTrade_def logAction_def)

text \<open>
  Claim C5. The copy size is \<open>max(5, detectedSize * sizeScale)\<close>; when its value at the
  detected price exceeds \<open>maxSizePerTrade\<close>, the size becomes \<open>maxSizePerTrade /
  detectedPrice\<close> and the value the cap itself; the trade is skipped, with the skip counter
  raised and no order placed, exactly when the resulting value is below 1. Detected size
  1000, scale 0.1, price 0.6 and cap 50 give size 50 / 0.6 and value 50.
\<close>

theorem copy_size_rule:
  "(rawSize = max 5 (tradeSize trade * sizeScale opts) \<and> rawSize * price trade \<le> maxSizePerTrade opts
      \<and> 1 \<le> rawSize * price trade
      \<longrightarrow> sizeCopy opts trade = Some (rawSize, rawSize * price trade))
   \<and> (rawSize = max 5 (tradeSize trade * sizeScale opts) \<and> rawSize * price trade > maxSizePerTrade opts
      \<and> 1 \<le> maxSizePerTrade opts
      \<longrightarrow> sizeCopy opts trade = Some (maxSizePerTrade opts / price trade, maxSizePerTrade opts)
        \<and> maxSizePerTrade opts / price trade * price trade = maxSizePerTrade opts)
   \<and> (rawSize = max 5 (tradeSize trade * sizeScale opts)
      \<longrightarrow> (sizeCopy opts trade = None \<longleftrightarrow>
             (if rawSize * price trade > maxSizePerTrade opts then maxSizePerTrade opts
              else rawSize * price trade) < 1))
   \<and> (reachesSizing opts trade \<and> sizeCopy opts trade = None
      \<longrightarrow> copyHandler opts ts trade stats
          = ((stats\<lparr>tradesDetected := tradesDetected stats + 1,
                     tradesSkipped := tradesSkipped stats + 1\<rparr>,
              if tradeFilter opts = None then [] else [CallTradeFilter]), None))
   \<and> sizeCopy exampleOptions exampleTrade = Some (50 / 0.6, 50)"
proof (intro conjI impI)
  assume "rawSize = max 5 (tradeSize trade * sizeScale opts) \<and> rawSize * price trade \<le> maxSizePerTrade opts
      \<and> 1 \<le> rawSize * price trade"
  then show "sizeCopy opts trade = Some (rawSize, rawSize * price trade)"
    using sizeCopy_uncapped [of rawSize trade opts] by blast
next
  assume a: "rawSize = max 5 (tradeSize trade * sizeScale opts) \<and> rawSize * price trade > maxSizePerTrade opts
      \<and> 1 \<le> maxSizePerTrade opts"
  then show "sizeCopy opts trade = Some (maxSizePerTrade opts / price trade, maxSizePerTrade opts)"
    using sizeCopy_capped [of rawSize trade opts] by blast
  from a show "maxSizePerTrade opts / price trade * price trade = maxSizePerTrade opts"
    using sizeCopy_capped [of rawSize trade opts] by blast
next
  assume "rawSize = max 5 (tradeSize trade * sizeScale opts)"
  then show "sizeCopy opts trade = None \<longleftrightarrow>
             (if rawSize * price trade > maxSizePerTrade opts then maxSizePerTrade opts
              else rawSize * price trade) < 1"
    by (rule sizeCopy_finite)
next
  assume "reachesSizing opts trade \<and> sizeCopy opts trade = None"
  then show "copyHandler opts ts trade stats
          = ((stats\<lparr>tradesDetected := tradesDetected stats + 1,
                     tradesSkipped := tradesSkipped stats + 1\<rparr>,
              if tradeFilter opts = None then [] else [CallTradeFilter]), None)"
    by (simp add: copyHandler_skip)
next
  show "sizeCopy exampleOptions exampleTrade = Some (50 / 0.6, 50)"
    by (simp add: sizeCopy_def exampleOptions_def exampleTrade_def Let_def MIN_SHARES_def
          MIN_ORDER_SIZE_def jsdiv_def)
qed

theorem copy_size_rule_witness:
  "sizeCopy (exampleOptions\<lparr>maxSizePerTrade := 100\<rparr>) exampleTrade = Some (100, 60)
   \<and> sizeCopy exampleOptions exampleTrade = Some (250 / 3, 50)
   \<and> 50 / price exampleTrade * price exampleTrade = 50
   \<and> sizeCopy (exampleOptions\<lparr>maxSizePerTrade := 1 / 2\<rparr>) exampleTrade = None
   \<and> copyHandler (exampleOptions\<lparr>maxSizePerTrade := 1 / 2\<rparr>) exampleTrading exampleTrade
        exampleStats
       = ((exampleStats\<lparr>tradesDetected := 1, tradesSkipped := 1\<rparr>, []), None)"
proof -
  let ?wide = "exampleOptions\<lparr>maxSizePerTrade := 100\<rparr>"
  let ?tiny = "exampleOptions\<lparr>maxSizePerTrade := 1 / 2\<rparr>"
  have v: "tradeSize exampleTrade = 1000" "price exampleTrade = 0.6"
    "sizeScale ?wide = 0.1" "maxSizePerTrade ?wide = 100"
    "sizeScale exampleOptions = 0.1" "maxSizePerTrade exampleOptions = 50"
    "sizeScale ?tiny = 0.1" "maxSizePerTrade ?tiny = 1 / 2" "tradeFilter ?tiny = None"
    "tradesDetected exampleStats = 0" "tradesSkipped exampleStats = 0"
    by (simp_all add: exampleTrade_def exampleOptions_def exampleStats_def)
  have reach: "reachesSizing ?tiny exampleTrade"
    by (simp add: reachesSizing_def passesFilters_def exampleOptions_def exampleTrade_def
          toLowerCase_def lowerChar_def)
  have 1: "sizeCopy ?wide exampleTrade = Some (100, 60)"
    using copy_size_rule [where opts = ?wide and trade = exampleTrade and rawSize = 100
        and ts = exampleTrading and stats = exampleStats]
    by (simp add: v)
  have 2: "sizeCopy exampleOptions exampleTrade = Some (250 / 3, 50)
           \<and> 50 / price exampleTrade * price exampleTrade = 50"
    using copy_size_rule [where opts = exampleOptions and trade = exampleTrade and rawSize = 100
        and ts = exampleTrading and stats = exampleStats]
    by (simp add: v)
  have 3: "sizeCopy ?tiny exampleTrade = None"
    using copy_size_rule [where opts = ?tiny and trade = exampleTrade and rawSize = 100
        and ts = exampleTrading and stats = exampleStats]
    by (simp add: v)
  have 4: "copyHandler ?tiny exampleTrading exampleTrade exampleStats
       = ((exampleStats\<lparr>tradesDetected := 1, tradesSkipped := 1\<rparr>, []), None)"
    using copy_size_rule [where opts = ?tiny and trade = exampleTrade and rawSize = 100
        and ts = exampleTrading and stats = exampleStats] reach 3
    by (simp add: v)
  show ?thesis using 1 2 3 4 by simp
qed





















end
